theory Spec2Isabelle
  imports Main
begin

section \<open>Values shared by the copy machines\<close>

text \<open>
  Identifiers are strings. A policy is a string or absent (\<open>undefined\<close>/\<open>null\<close>);
  a directory carries a pair of them. An error object is reduced to the three fields the
  machines read: \<open>code\<close>, \<open>xcode\<close> and the message.
\<close>

type_synonym uuid = string

type_synonym policy = "string option"

type_synonym dirpolicy = "policy \<times> policy"

record jserror =
  e_code :: "string option"
  e_xcode :: "string option"
  e_message :: string

record xstat =
  x_uuid :: uuid
  x_type :: string
  x_name :: string

text \<open>
  The third constructor argument of a Directory is stored as \<open>srcUUID\<close> whatever it is:
  \<open>Read.next\<close> passes the uuid of a listing entry; nothing keeps another caller from
  passing a whole xstat.
\<close>

datatype src = SrcUUID uuid | SrcXstat xstat

text \<open>What a child reads of its parent: \<open>parent.srcUUID\<close> and \<open>parent.dstUUID\<close>.\<close>

record parent =
  p_srcUUID :: src
  p_dstUUID :: "uuid option"

text \<open>
  Effects that leave the machines: a call to a collaborator (the callback arrives later,
  as an input), and an event emitted on a node. The first field is the identity of the
  node (JavaScript object identity, here a number handed out at construction).
\<close>

datatype signal = SigError jserror | SigFinish

datatype effect =
    CpFile nat src uuid string "uuid option" policy
  | Mkdirc nat src "uuid option" dirpolicy
  | Readdir nat src
  | Emit nat signal

section \<open>The copy context\<close>

text \<open>
  Modelled from the spec: the class of \<open>ctx\<close> (\<open>indexPendingFile\<close>,
  \<open>unindexPendingFile\<close>, ..., \<open>cpFile\<close>, \<open>mkdirc\<close>, \<open>vfs.readdir\<close>, \<open>policies\<close>) is not
  in src. Section 4.3 says that the enter/exit operations of every lifecycle bucket are
  idempotent set operations and the sole side effect of a state transition, so each bucket
  is a set of node identities, \<open>index\<close> inserts and \<open>unindex\<close> removes. The collaborator
  calls are appended to \<open>trace\<close>; \<open>nextId\<close> numbers the objects made by \<open>new\<close>.
\<close>

record ctx =
  pendingFile :: "nat set"
  workingFile :: "nat set"
  conflictFile :: "nat set"
  failedFile :: "nat set"
  finishedFile :: "nat set"
  pendingDir :: "nat set"
  makingDir :: "nat set"
  conflictDir :: "nat set"
  readingDir :: "nat set"
  readDir :: "nat set"
  failedDir :: "nat set"
  finishedDir :: "nat set"
  policies_file :: policy
  policies_dir :: dirpolicy
  nextId :: nat
  trace :: "effect list"

definition indexPendingFile :: "nat \<Rightarrow> ctx \<Rightarrow> ctx" where
  "indexPendingFile i c = c\<lparr>pendingFile := insert i (pendingFile c)\<rparr>"

definition unindexPendingFile :: "nat \<Rightarrow> ctx \<Rightarrow> ctx" where
  "unindexPendingFile i c = c\<lparr>pendingFile := pendingFile c - {i}\<rparr>"

definition indexWorkingFile :: "nat \<Rightarrow> ctx \<Rightarrow> ctx" where
  "indexWorkingFile i c = c\<lparr>workingFile := insert i (workingFile c)\<rparr>"

definition unindexWorkingFile :: "nat \<Rightarrow> ctx \<Rightarrow> ctx" where
  "unindexWorkingFile i c = c\<lparr>workingFile := workingFile c - {i}\<rparr>"

definition indexConflictFile :: "nat \<Rightarrow> ctx \<Rightarrow> ctx" where
  "indexConflictFile i c = c\<lparr>conflictFile := insert i (conflictFile c)\<rparr>"

definition unindexConflictFile :: "nat \<Rightarrow> ctx \<Rightarrow> ctx" where
  "unindexConflictFile i c = c\<lparr>conflictFile := conflictFile c - {i}\<rparr>"

definition indexFailedFile :: "nat \<Rightarrow> ctx \<Rightarrow> ctx" where
  "indexFailedFile i c = c\<lparr>failedFile := insert i (failedFile c)\<rparr>"

definition unindexFailedFile :: "nat \<Rightarrow> ctx \<Rightarrow> ctx" where
  "unindexFailedFile i c = c\<lparr>failedFile := failedFile c - {i}\<rparr>"

definition indexFinishedFile :: "nat \<Rightarrow> ctx \<Rightarrow> ctx" where
  "indexFinishedFile i c = c\<lparr>finishedFile := insert i (finishedFile c)\<rparr>"

definition unindexFinishedFile :: "nat \<Rightarrow> ctx \<Rightarrow> ctx" where
  "unindexFinishedFile i c = c\<lparr>finishedFile := finishedFile c - {i}\<rparr>"

definition indexPendingDir :: "nat \<Rightarrow> ctx \<Rightarrow> ctx" where
  "indexPendingDir i c = c\<lparr>pendingDir := insert i (pendingDir c)\<rparr>"

definition unindexPendingDir :: "nat \<Rightarrow> ctx \<Rightarrow> ctx" where
  "unindexPendingDir i c = c\<lparr>pendingDir := pendingDir c - {i}\<rparr>"

definition indexMakingDir :: "nat \<Rightarrow> ctx \<Rightarrow> ctx" where
  "indexMakingDir i c = c\<lparr>makingDir := insert i (makingDir c)\<rparr>"

definition unindexMakingDir :: "nat \<Rightarrow> ctx \<Rightarrow> ctx" where
  "unindexMakingDir i c = c\<lparr>makingDir := makingDir c - {i}\<rparr>"

definition indexConflictDir :: "nat \<Rightarrow> ctx \<Rightarrow> ctx" where
  "indexConflictDir i c = c\<lparr>conflictDir := insert i (conflictDir c)\<rparr>"

definition unindexConflictDir :: "nat \<Rightarrow> ctx \<Rightarrow> ctx" where
  "unindexConflictDir i c = c\<lparr>conflictDir := conflictDir c - {i}\<rparr>"

definition indexReadingDir :: "nat \<Rightarrow> ctx \<Rightarrow> ctx" where
  "indexReadingDir i c = c\<lparr>readingDir := insert i (readingDir c)\<rparr>"

definition unindexReadingDir :: "nat \<Rightarrow> ctx \<Rightarrow> ctx" where
  "unindexReadingDir i c = c\<lparr>readingDir := readingDir c - {i}\<rparr>"

definition indexReadDir :: "nat \<Rightarrow> ctx \<Rightarrow> ctx" where
  "indexReadDir i c = c\<lparr>readDir := insert i (readDir c)\<rparr>"

definition unindexReadDir :: "nat \<Rightarrow> ctx \<Rightarrow> ctx" where
  "unindexReadDir i c = c\<lparr>readDir := readDir c - {i}\<rparr>"

definition indexFailedDir :: "nat \<Rightarrow> ctx \<Rightarrow> ctx" where
  "indexFailedDir i c = c\<lparr>failedDir := insert i (failedDir c)\<rparr>"

definition unindexFailedDir :: "nat \<Rightarrow> ctx \<Rightarrow> ctx" where
  "unindexFailedDir i c = c\<lparr>failedDir := failedDir c - {i}\<rparr>"

definition indexFinishedDir :: "nat \<Rightarrow> ctx \<Rightarrow> ctx" where
  "indexFinishedDir i c = c\<lparr>finishedDir := insert i (finishedDir c)\<rparr>"

definition unindexFinishedDir :: "nat \<Rightarrow> ctx \<Rightarrow> ctx" where
  "unindexFinishedDir i c = c\<lparr>finishedDir := finishedDir c - {i}\<rparr>"

definition call :: "effect \<Rightarrow> ctx \<Rightarrow> ctx" where
  "call e c = c\<lparr>trace := trace c @ [e]\<rparr>"

definition emptyCtx :: ctx where
  "emptyCtx = \<lparr>pendingFile = {}, workingFile = {}, conflictFile = {}, failedFile = {},
     finishedFile = {}, pendingDir = {}, makingDir = {}, conflictDir = {}, readingDir = {},
     readDir = {}, failedDir = {}, finishedDir = {}, policies_file = None,
     policies_dir = (None, None), nextId = 0, trace = []\<rparr>"

text \<open>JavaScript truth of a policy value: \<open>undefined\<close>, \<open>null\<close> and the empty string are false.\<close>

definition truthy :: "policy \<Rightarrow> bool" where
  "truthy p = (case p of None \<Rightarrow> False | Some s \<Rightarrow> s \<noteq> [])"

section \<open>The File machine (second module of src/src/vfs/forest.js)\<close>

text \<open>
  The five state classes. \<open>Working.enter\<close> keeps the resolved policy in a local variable
  that its callback closes over; the state value carries it. The other state objects hold
  nothing but the file: \<open>Conflict.enter\<close> and \<open>Failed.enter\<close> store none of their
  arguments.
\<close>

datatype fstate = File_Pending | File_Working policy | File_Conflict | File_Failed | File_Finished

text \<open>
  \<open>f_state\<close> is the field \<open>file.state\<close>, which the methods of File dispatch on. The base
  constructor of the file states assigns \<open>this.file\<close> only (the directory states also
  assign \<open>this.dir.state = this\<close>), so the field is written once, by the File constructor.
  \<open>f_live\<close> is the state object made last, which owns the pending callback.
\<close>

record filerec =
  f_id :: nat
  f_srcUUID :: uuid
  f_srcName :: string
  f_policy :: policy
  f_state :: fstate
  f_live :: fstate

text \<open>The class and arguments handed to \<open>setState(NextState, ...args)\<close>.\<close>

datatype fnext =
    To_Working
  | To_Conflict jserror policy
  | To_Failed jserror
  | To_Finished

definition File_getPolicy :: "ctx \<Rightarrow> filerec \<Rightarrow> policy" where
  "File_getPolicy c f =
     (if truthy (f_policy f) then f_policy f
      else if truthy (policies_file c) then policies_file c
      else None)"

definition File_setPolicy :: "policy \<Rightarrow> filerec \<Rightarrow> filerec" where
  "File_setPolicy p f = f\<lparr>f_policy := p\<rparr>"

text \<open>\<open>exit\<close> of each state class. \<open>Failed.exit\<close> calls \<open>unindexWorkingFile\<close>.\<close>

fun File_State_exit :: "fstate \<Rightarrow> filerec \<Rightarrow> ctx \<Rightarrow> ctx" where
  "File_State_exit File_Pending f c = unindexPendingFile (f_id f) c"
| "File_State_exit (File_Working p) f c = unindexWorkingFile (f_id f) c"
| "File_State_exit File_Conflict f c = unindexConflictFile (f_id f) c"
| "File_State_exit File_Failed f c = unindexWorkingFile (f_id f) c"
| "File_State_exit File_Finished f c = unindexFinishedFile (f_id f) c"

text \<open>
  \<open>new NextState(file, ...args)\<close>: the constructor runs \<open>enter(...args)\<close>. The result is the
  context, the state object made, and the event emitted on the file, if any.
\<close>

fun File_State_new :: "fnext \<Rightarrow> parent \<Rightarrow> filerec \<Rightarrow> ctx \<Rightarrow> ctx \<times> fstate \<times> signal option" where
  "File_State_new To_Working par f c =
     (let c1 = indexWorkingFile (f_id f) c;
          policy = File_getPolicy c1 f
      in (call (CpFile (f_id f) (p_srcUUID par) (f_srcUUID f) (f_srcName f) (p_dstUUID par) policy) c1,
          File_Working policy, None))"
| "File_State_new (To_Conflict e p) par f c =
     (indexConflictFile (f_id f) c, File_Conflict, None)"
| "File_State_new (To_Failed e) par f c =
     (call (Emit (f_id f) (SigError e)) (indexFailedFile (f_id f) c), File_Failed, Some (SigError e))"
| "File_State_new To_Finished par f c =
     (call (Emit (f_id f) SigFinish) (indexFinishedFile (f_id f) c), File_Finished, Some SigFinish)"

text \<open>
  \<open>State.setState\<close> on the state object \<open>s\<close>: \<open>this.exit()\<close>, then the new state. The
  field \<open>file.state\<close> is not assigned.
\<close>

definition File_State_setState ::
  "fstate \<Rightarrow> fnext \<Rightarrow> parent \<Rightarrow> filerec \<Rightarrow> ctx \<Rightarrow> ctx \<times> filerec \<times> signal option" where
  "File_State_setState s nxt par f c =
     (case File_State_new nxt par f (File_State_exit s f c) of
        (c', s', sig) \<Rightarrow> (c', f\<lparr>f_live := s'\<rparr>, sig))"

text \<open>The transition chosen by the callback that \<open>Working.enter\<close> hands to \<open>cpFile\<close>.\<close>

definition Working_callback :: "policy \<Rightarrow> jserror option \<Rightarrow> fnext" where
  "Working_callback policy err =
     (case err of
        Some e \<Rightarrow> if e_xcode e = Some ''ECONFLICT'' then To_Conflict e policy else To_Failed e
      | None \<Rightarrow> To_Finished)"

text \<open>
  The callback of \<open>cpFile\<close> arriving at a file whose live state is the Working object that
  made the call; a file with no call outstanding has no callback to run.
\<close>

definition cpFile_done :: "jserror option \<Rightarrow> parent \<Rightarrow> filerec \<Rightarrow> ctx \<Rightarrow> ctx \<times> filerec \<times> signal option" where
  "cpFile_done err par f c =
     (case f_live f of
        File_Working policy \<Rightarrow>
          File_State_setState (File_Working policy) (Working_callback policy err) par f c
      | _ \<Rightarrow> (c, f, None))"

text \<open>
  The File constructor: \<open>this.state = new Pending(this)\<close>. The Node constructor behind
  \<open>super(ctx, parent)\<close> is not in src; the caller appends the file to the parent's children.
\<close>

definition File_constructor :: "ctx \<Rightarrow> uuid \<Rightarrow> string \<Rightarrow> ctx \<times> filerec" where
  "File_constructor c srcUUID srcName =
     (let i = nextId c;
          f = \<lparr>f_id = i, f_srcUUID = srcUUID, f_srcName = srcName, f_policy = None,
               f_state = File_Pending, f_live = File_Pending\<rparr>
      in (indexPendingFile i (c\<lparr>nextId := Suc i\<rparr>), f))"

text \<open>
  \<open>File.setState(NextState)\<close>: \<open>this.state.setState(NextState)\<close>. The method passes the
  class alone; it is used below with Working, whose \<open>enter\<close> takes no argument.
\<close>

definition File_setState :: "fnext \<Rightarrow> parent \<Rightarrow> filerec \<Rightarrow> ctx \<Rightarrow> ctx \<times> filerec \<times> signal option" where
  "File_setState nxt par f c = File_State_setState (f_state f) nxt par f c"

text \<open>
  \<open>File.destroy(detach)\<close>: \<open>this.state.destroy()\<close>, which is \<open>this.exit()\<close> of the state
  in the field, then \<open>super.destroy(detach)\<close>. Modelled from the spec: \<open>Node.destroy\<close> is
  not in src; section 2 gives the Node its children and parent link only, so for a file it
  touches no bucket, and the detaching is done by the owner of the children list.
\<close>

definition File_destroy :: "filerec \<Rightarrow> ctx \<Rightarrow> ctx" where
  "File_destroy f c = File_State_exit (f_state f) f c"

text \<open>
  \<open>resolve\<close> of each state class. Only Conflict overrides the empty base method:
  \<open>if (this.policy !== this.dir.getPolicy()) this.setState(Working)\<close>. A file state has
  no \<open>dir\<close> field, so evaluating the condition raises a TypeError before any comparison.
\<close>

datatype jsthrow = TypeError

fun File_State_resolve :: "fstate \<Rightarrow> parent \<Rightarrow> filerec \<Rightarrow> ctx \<Rightarrow> jsthrow + ctx \<times> filerec" where
  "File_State_resolve File_Conflict par f c = Inl TypeError"
| "File_State_resolve s par f c = Inr (c, f)"

text \<open>\<open>File.resolve()\<close>: \<open>this.state.resolve()\<close>.\<close>

definition File_resolve :: "parent \<Rightarrow> filerec \<Rightarrow> ctx \<Rightarrow> jsthrow + ctx \<times> filerec" where
  "File_resolve par f c = File_State_resolve (f_state f) par f c"

section \<open>The Directory machine (src/unnamed/part_001)\<close>

text \<open>
  The seven state classes. \<open>Making.enter\<close> keeps the resolved policy in a local variable
  for its callback; \<open>Conflict.enter\<close> stores the error and the policy on the state object.
\<close>

datatype dstate =
    Dir_Pending
  | Dir_Making dirpolicy
  | Dir_Conflict jserror dirpolicy
  | Dir_Reading
  | Dir_Read
  | Dir_Failed
  | Dir_Finished

text \<open>
  \<open>d_state\<close> is the field \<open>dir.state\<close>, assigned by the constructor of every directory
  state. Modelled from the spec: the field \<open>policy\<close> is read by \<open>getPolicy\<close> and written by
  \<open>setPolicy\<close> but initialised nowhere in src (the Node constructor is missing); section 4.2
  makes it a pair of slots, unset until \<open>setPolicy\<close> fills one.
\<close>

record dirrec =
  d_id :: nat
  d_srcUUID :: src
  d_dstUUID :: "uuid option"
  d_dstats :: "xstat list"
  d_fstats :: "xstat list"
  d_policy :: dirpolicy
  d_state :: dstate

text \<open>A node with the children it owns (\<open>dir.children\<close>, oldest first).\<close>

datatype node = FileNode filerec | DirNode dirrec "node list"

definition parent_of :: "dirrec \<Rightarrow> parent" where
  "parent_of d = \<lparr>p_srcUUID = d_srcUUID d, p_dstUUID = d_dstUUID d\<rparr>"

definition policy_slot :: "policy \<Rightarrow> policy \<Rightarrow> policy" where
  "policy_slot own dflt = (if truthy own then own else if truthy dflt then dflt else None)"

definition Directory_getPolicy :: "ctx \<Rightarrow> dirrec \<Rightarrow> dirpolicy" where
  "Directory_getPolicy c d =
     (policy_slot (fst (d_policy d)) (fst (policies_dir c)),
      policy_slot (snd (d_policy d)) (snd (policies_dir c)))"

fun Dir_State_exit :: "dstate \<Rightarrow> dirrec \<Rightarrow> ctx \<Rightarrow> ctx" where
  "Dir_State_exit Dir_Pending d c = unindexPendingDir (d_id d) c"
| "Dir_State_exit (Dir_Making p) d c = unindexMakingDir (d_id d) c"
| "Dir_State_exit (Dir_Conflict e p) d c = unindexConflictDir (d_id d) c"
| "Dir_State_exit Dir_Reading d c = unindexReadingDir (d_id d) c"
| "Dir_State_exit Dir_Read d c = unindexReadDir (d_id d) c"
| "Dir_State_exit Dir_Failed d c = unindexFailedDir (d_id d) c"
| "Dir_State_exit Dir_Finished d c = unindexFinishedDir (d_id d) c"

text \<open>
  \<open>destroy\<close> of a node. File: see \<open>File_destroy\<close>. Directory:
  \<open>this.children.forEach(c => c.destroy())\<close>, \<open>this.state.destroy()\<close> (the \<open>exit\<close> of
  the current state), \<open>super.destroy(detach)\<close>. Modelled from the spec: \<open>Node.destroy\<close> is
  not in src; section 3 says that it tears the children down recursively, and detaching
  takes the node out of its parent's children, which the owner of that list does
  (\<open>detach_at\<close>).
\<close>

fun Node_destroy :: "node \<Rightarrow> ctx \<Rightarrow> ctx"
  and destroy_children :: "node list \<Rightarrow> ctx \<Rightarrow> ctx" where
  "Node_destroy (FileNode f) c = File_destroy f c"
| "Node_destroy (DirNode d cs) c =
     destroy_children cs (Dir_State_exit (d_state d) d (destroy_children cs c))"
| "destroy_children [] c = c"
| "destroy_children (n # ns) c = destroy_children ns (Node_destroy n c)"

definition detach_at :: "nat \<Rightarrow> node list \<Rightarrow> node list" where
  "detach_at i cs = take i cs @ drop (Suc i) cs"

text \<open>\<open>enter\<close> of the states, after the constructor has assigned \<open>dir.state\<close>.\<close>

definition Pending_new :: "dirrec \<Rightarrow> node list \<Rightarrow> ctx \<Rightarrow> ctx \<times> node \<times> signal option" where
  "Pending_new d cs c = (indexPendingDir (d_id d) c, DirNode (d\<lparr>d_state := Dir_Pending\<rparr>) cs, None)"

definition Making_new :: "parent \<Rightarrow> dirrec \<Rightarrow> node list \<Rightarrow> ctx \<Rightarrow> ctx \<times> node \<times> signal option" where
  "Making_new par d cs c =
     (let c1 = indexMakingDir (d_id d) c;
          policy = Directory_getPolicy c1 d
      in (call (Mkdirc (d_id d) (d_srcUUID d) (p_dstUUID par) policy) c1,
          DirNode (d\<lparr>d_state := Dir_Making policy\<rparr>) cs, None))"

definition Conflict_new ::
  "jserror \<Rightarrow> dirpolicy \<Rightarrow> dirrec \<Rightarrow> node list \<Rightarrow> ctx \<Rightarrow> ctx \<times> node \<times> signal option" where
  "Conflict_new err policy d cs c =
     (indexConflictDir (d_id d) c, DirNode (d\<lparr>d_state := Dir_Conflict err policy\<rparr>) cs, None)"

definition Reading_new :: "dirrec \<Rightarrow> node list \<Rightarrow> ctx \<Rightarrow> ctx \<times> node \<times> signal option" where
  "Reading_new d cs c =
     (call (Readdir (d_id d) (d_srcUUID d)) (indexReadingDir (d_id d) c),
      DirNode (d\<lparr>d_state := Dir_Reading\<rparr>) cs, None)"

definition Failed_new :: "jserror \<Rightarrow> dirrec \<Rightarrow> node list \<Rightarrow> ctx \<Rightarrow> ctx \<times> node \<times> signal option" where
  "Failed_new err d cs c =
     (call (Emit (d_id d) (SigError err)) (destroy_children cs (indexFailedDir (d_id d) c)),
      DirNode (d\<lparr>d_state := Dir_Failed\<rparr>) cs, Some (SigError err))"

definition Finished_new :: "dirrec \<Rightarrow> node list \<Rightarrow> ctx \<Rightarrow> ctx \<times> node \<times> signal option" where
  "Finished_new d cs c =
     (call (Emit (d_id d) SigFinish) (indexFinishedDir (d_id d) c),
      DirNode (d\<lparr>d_state := Dir_Finished\<rparr>) cs, Some SigFinish)"

text \<open>
  \<open>new Directory(ctx, parent, srcUUID)\<close>, the call of \<open>Read.next\<close>: no \<open>dstUUID\<close>, so the
  constructor makes the Pending state. The Node constructor behind \<open>super(ctx, parent)\<close> is
  not in src; the caller appends the new node to the parent's children.
\<close>

definition Directory_constructor3 :: "ctx \<Rightarrow> src \<Rightarrow> ctx \<times> node \<times> signal option" where
  "Directory_constructor3 c srcUUID =
     (let i = nextId c;
          d = \<lparr>d_id = i, d_srcUUID = srcUUID, d_dstUUID = None, d_dstats = [], d_fstats = [],
               d_policy = (None, None), d_state = Dir_Pending\<rparr>
      in Pending_new d [] (c\<lparr>nextId := Suc i\<rparr>))"

text \<open>
  \<open>Read.next\<close>. A file entry is shifted off \<open>fstats\<close> and a File made for it; else a
  directory entry is shifted off \<open>dstats\<close> and a Directory made for it; else, if the
  directory has no children, \<open>this.setState(Finished)\<close>: \<open>Read.exit\<close>, then Finished.
\<close>

definition Read_next :: "dirrec \<Rightarrow> node list \<Rightarrow> ctx \<Rightarrow> ctx \<times> node \<times> signal option" where
  "Read_next d cs c =
     (case d_fstats d of
        fstat # fs \<Rightarrow>
          (case File_constructor c (x_uuid fstat) (x_name fstat) of
             (c1, f) \<Rightarrow> (c1, DirNode (d\<lparr>d_fstats := fs\<rparr>) (cs @ [FileNode f]), None))
      | [] \<Rightarrow>
          (case d_dstats d of
             dstat # ds \<Rightarrow>
               (case Directory_constructor3 c (SrcUUID (x_uuid dstat)) of
                  (c1, n, s) \<Rightarrow> (c1, DirNode (d\<lparr>d_dstats := ds\<rparr>) (cs @ [n]), None))
           | [] \<Rightarrow>
               (if length cs = 0 then Finished_new d cs (unindexReadDir (d_id d) c)
                else (c, DirNode d cs, None))))"

definition Read_new :: "xstat list \<Rightarrow> dirrec \<Rightarrow> node list \<Rightarrow> ctx \<Rightarrow> ctx \<times> node \<times> signal option" where
  "Read_new xstats d cs c =
     Read_next
       (d\<lparr>d_state := Dir_Read,
          d_dstats := filter (\<lambda>x. x_type x = ''directory'') xstats,
          d_fstats := filter (\<lambda>x. x_type x = ''file'') xstats\<rparr>)
       cs (indexReadDir (d_id d) c)"

text \<open>The class and arguments handed to \<open>setState(NextState, ...args)\<close>.\<close>

datatype dnext =
    To_Making
  | To_DirConflict jserror dirpolicy
  | To_Reading
  | To_Read "xstat list"
  | To_DirFailed jserror
  | To_DirFinished

fun Dir_State_new ::
  "dnext \<Rightarrow> parent \<Rightarrow> dirrec \<Rightarrow> node list \<Rightarrow> ctx \<Rightarrow> ctx \<times> node \<times> signal option" where
  "Dir_State_new To_Making par d cs c = Making_new par d cs c"
| "Dir_State_new (To_DirConflict e p) par d cs c = Conflict_new e p d cs c"
| "Dir_State_new To_Reading par d cs c = Reading_new d cs c"
| "Dir_State_new (To_Read xstats) par d cs c = Read_new xstats d cs c"
| "Dir_State_new (To_DirFailed e) par d cs c = Failed_new e d cs c"
| "Dir_State_new To_DirFinished par d cs c = Finished_new d cs c"

definition Dir_State_setState ::
  "dstate \<Rightarrow> dnext \<Rightarrow> parent \<Rightarrow> dirrec \<Rightarrow> node list \<Rightarrow> ctx \<Rightarrow> ctx \<times> node \<times> signal option" where
  "Dir_State_setState s nxt par d cs c = Dir_State_new nxt par d cs (Dir_State_exit s d c)"

text \<open>\<open>Directory.setState(NextState)\<close>: \<open>this.state.setState(NextState)\<close>.\<close>

definition Directory_setState ::
  "dnext \<Rightarrow> parent \<Rightarrow> dirrec \<Rightarrow> node list \<Rightarrow> ctx \<Rightarrow> ctx \<times> node \<times> signal option" where
  "Directory_setState nxt par d cs c = Dir_State_setState (d_state d) nxt par d cs c"

text \<open>
  The Directory constructor. The comment in the source requires \<open>dstUUID\<close> and \<open>xstats\<close>
  to come together; \<open>if (dstUUID)\<close> is false for the empty string as well.
\<close>

definition Directory_constructor ::
  "ctx \<Rightarrow> src \<Rightarrow> (uuid \<times> xstat list) option \<Rightarrow> ctx \<times> node \<times> signal option" where
  "Directory_constructor c srcUUID dst =
     (let i = nextId c;
          c0 = c\<lparr>nextId := Suc i\<rparr>;
          d = \<lparr>d_id = i, d_srcUUID = srcUUID, d_dstUUID = None, d_dstats = [], d_fstats = [],
               d_policy = (None, None), d_state = Dir_Pending\<rparr>
      in case dst of
           Some (dstUUID, xstats) \<Rightarrow>
             if dstUUID \<noteq> [] then Read_new xstats (d\<lparr>d_dstUUID := Some dstUUID\<rparr>) [] c0
             else Pending_new d [] c0
         | None \<Rightarrow> Pending_new d [] c0)"

text \<open>The callbacks that \<open>Making.enter\<close> and \<open>Reading.enter\<close> hand to their collaborators.\<close>

definition mkdirc_done ::
  "jserror + xstat \<Rightarrow> parent \<Rightarrow> dirrec \<Rightarrow> node list \<Rightarrow> ctx \<Rightarrow> ctx \<times> node \<times> signal option" where
  "mkdirc_done r par d cs c =
     (case d_state d of
        Dir_Making policy \<Rightarrow>
          (case r of
             Inl err \<Rightarrow>
               if e_code err = Some ''EEXIST''
               then Dir_State_setState (Dir_Making policy) (To_DirConflict err policy) par d cs c
               else Dir_State_setState (Dir_Making policy) (To_DirFailed err) par d cs c
           | Inr xstat \<Rightarrow>
               Dir_State_setState (Dir_Making policy) To_Reading par
                 (d\<lparr>d_dstUUID := Some (x_uuid xstat)\<rparr>) cs c)
      | _ \<Rightarrow> (c, DirNode d cs, None))"

definition readdir_done ::
  "jserror + xstat list \<Rightarrow> parent \<Rightarrow> dirrec \<Rightarrow> node list \<Rightarrow> ctx \<Rightarrow> ctx \<times> node \<times> signal option" where
  "readdir_done r par d cs c =
     (case d_state d of
        Dir_Reading \<Rightarrow>
          (case r of
             Inl err \<Rightarrow> Dir_State_setState Dir_Reading (To_DirFailed err) par d cs c
           | Inr xstats \<Rightarrow> Dir_State_setState Dir_Reading (To_Read xstats) par d cs c)
      | _ \<Rightarrow> (c, DirNode d cs, None))"

text \<open>
  \<open>retry\<close> of the states: only Conflict overrides the empty base method, with
  \<open>this.setState(Making)\<close>.
\<close>

fun Dir_State_retry ::
  "dstate \<Rightarrow> parent \<Rightarrow> dirrec \<Rightarrow> node list \<Rightarrow> ctx \<Rightarrow> ctx \<times> node" where
  "Dir_State_retry (Dir_Conflict e p) par d cs c =
     (case Dir_State_setState (Dir_Conflict e p) To_Making par d cs c of (c', n, s) \<Rightarrow> (c', n))"
| "Dir_State_retry s par d cs c = (c, DirNode d cs)"

text \<open>
  \<open>Directory.retry\<close>: every child retries, then the state. File declares no \<open>retry\<close> and
  the Node class that would have to supply it is not in src: what a file child does is the
  parameter \<open>fr\<close>.
\<close>

fun Directory_retry ::
  "(filerec \<Rightarrow> ctx \<Rightarrow> ctx \<times> filerec) \<Rightarrow> parent \<Rightarrow> node \<Rightarrow> ctx \<Rightarrow> ctx \<times> node"
  and retry_children ::
  "(filerec \<Rightarrow> ctx \<Rightarrow> ctx \<times> filerec) \<Rightarrow> parent \<Rightarrow> node list \<Rightarrow> ctx \<Rightarrow> ctx \<times> node list" where
  "Directory_retry fr par (FileNode f) c = (case fr f c of (c', f') \<Rightarrow> (c', FileNode f'))"
| "Directory_retry fr par (DirNode d cs) c =
     (case retry_children fr (parent_of d) cs c of
        (c1, cs1) \<Rightarrow> Dir_State_retry (d_state d) par d cs1 c1)"
| "retry_children fr par [] c = (c, [])"
| "retry_children fr par (n # ns) c =
     (case Directory_retry fr par n c of
        (c1, n1) \<Rightarrow> (case retry_children fr par ns c1 of (c2, ns1) \<Rightarrow> (c2, n1 # ns1)))"

text \<open>\<open>Directory.setPolicy(type, policy)\<close>.\<close>

definition Directory_setPolicy ::
  "(filerec \<Rightarrow> ctx \<Rightarrow> ctx \<times> filerec) \<Rightarrow> string \<Rightarrow> policy \<Rightarrow> parent \<Rightarrow> dirrec \<Rightarrow> node list \<Rightarrow> ctx
     \<Rightarrow> ctx \<times> node" where
  "Directory_setPolicy fr type policy par d cs c =
     (let d1 = (if type = ''same'' then d\<lparr>d_policy := (policy, snd (d_policy d))\<rparr>
                else d\<lparr>d_policy := (fst (d_policy d), policy)\<rparr>)
      in Directory_retry fr par (DirNode d1 cs) c)"

section \<open>Inputs to a tree of nodes\<close>

text \<open>
  What reaches a node from outside the two machines. Modelled from the spec: the scheduler
  of the context is not in src; section 4 says that a Pending node awaits scheduling, so
  \<open>Schedule\<close> is \<open>node.setState(Working)\<close> on a file and \<open>node.setState(Making)\<close> on a
  directory, for a node that is Pending. The other inputs are the callbacks of the three
  collaborators, each run for the state that made the call.
\<close>

datatype input =
    Schedule
  | CpFileDone "jserror option"
  | MkdircDone "jserror + xstat"
  | ReaddirDone "jserror + xstat list"

fun file_input :: "input \<Rightarrow> parent \<Rightarrow> filerec \<Rightarrow> ctx \<Rightarrow> ctx \<times> filerec \<times> signal option" where
  "file_input Schedule par f c =
     (if f_live f = File_Pending then File_setState To_Working par f c else (c, f, None))"
| "file_input (CpFileDone err) par f c = cpFile_done err par f c"
| "file_input inp par f c = (c, f, None)"

fun dir_input ::
  "input \<Rightarrow> parent \<Rightarrow> dirrec \<Rightarrow> node list \<Rightarrow> ctx \<Rightarrow> ctx \<times> node \<times> signal option" where
  "dir_input Schedule par d cs c =
     (if d_state d = Dir_Pending then Directory_setState To_Making par d cs c
      else (c, DirNode d cs, None))"
| "dir_input (MkdircDone r) par d cs c = mkdirc_done r par d cs c"
| "dir_input (ReaddirDone r) par d cs c = readdir_done r par d cs c"
| "dir_input inp par d cs c = (c, DirNode d cs, None)"

text \<open>
  An input for the node at a path of child positions. An event that a child emits runs the
  listener that \<open>Read.next\<close> attached when it made the child: on \<open>error\<close>, \<open>this.next()\<close>; on
  \<open>finish\<close>, \<open>child.destroy(true)\<close> and then \<open>this.next()\<close>.
\<close>

fun deliver :: "input \<Rightarrow> nat list \<Rightarrow> parent \<Rightarrow> node \<Rightarrow> ctx \<Rightarrow> ctx \<times> node \<times> signal option" where
  "deliver inp [] par (FileNode f) c =
     (case file_input inp par f c of (c1, f1, s) \<Rightarrow> (c1, FileNode f1, s))"
| "deliver inp (i # p) par (FileNode f) c = (c, FileNode f, None)"
| "deliver inp [] par (DirNode d cs) c = dir_input inp par d cs c"
| "deliver inp (i # p) par (DirNode d cs) c =
     (if i < length cs then
        (case deliver inp p (parent_of d) (cs ! i) c of
           (c1, n1, None) \<Rightarrow> (c1, DirNode d (cs[i := n1]), None)
         | (c1, n1, Some (SigError e)) \<Rightarrow> Read_next d (cs[i := n1]) c1
         | (c1, n1, Some SigFinish) \<Rightarrow>
             Read_next d (detach_at i (cs[i := n1])) (Node_destroy n1 c1))
      else (c, DirNode d cs, None))"

text \<open>A run: inputs one after the other; what the root emits goes to listeners outside.\<close>

fun run :: "(nat list \<times> input) list \<Rightarrow> parent \<Rightarrow> node \<Rightarrow> ctx \<Rightarrow> ctx \<times> node" where
  "run [] par n c = (c, n)"
| "run ((p, inp) # evs) par n c =
     (case deliver inp p par n c of (c1, n1, s) \<Rightarrow> run evs par n1 c1)"

definition state_of :: "node \<Rightarrow> dstate option" where
  "state_of n = (case n of DirNode d cs \<Rightarrow> Some (d_state d) | FileNode f \<Rightarrow> None)"

definition children_of :: "node \<Rightarrow> node list" where
  "children_of n = (case n of DirNode d cs \<Rightarrow> cs | FileNode f \<Rightarrow> [])"

definition queues_of :: "node \<Rightarrow> xstat list \<times> xstat list" where
  "queues_of n = (case n of DirNode d cs \<Rightarrow> (d_fstats d, d_dstats d) | FileNode f \<Rightarrow> ([], []))"

definition policy_of :: "node \<Rightarrow> dirpolicy" where
  "policy_of n = (case n of DirNode d cs \<Rightarrow> d_policy d | FileNode f \<Rightarrow> (None, None))"

definition dst_of :: "node \<Rightarrow> uuid option" where
  "dst_of n = (case n of DirNode d cs \<Rightarrow> d_dstUUID d | FileNode f \<Rightarrow> None)"

section \<open>Forest (first module of src/src/vfs/forest.js)\<close>

text \<open>
  A JavaScript \<open>Set\<close> keeps its members in insertion order and
  \<open>set[Symbol.iterator]().next().value\<close> is the oldest member: a bucket is a list without
  repetition, \<open>add\<close> appends a new member, \<open>delete\<close> removes it, \<open>size\<close> is the length.
\<close>

definition set_add :: "'a \<Rightarrow> 'a list \<Rightarrow> 'a list" where
  "set_add x xs = (if x \<in> set xs then xs else xs @ [x])"

definition set_delete :: "'a \<Rightarrow> 'a list \<Rightarrow> 'a list" where
  "set_delete x xs = removeAll x xs"

text \<open>
  Of a directory in its buckets and index, Forest reads \<open>dir.uuid\<close> and \<open>dir.name\<close> (the
  name in debug output only) and calls \<open>dir.read()\<close>; of a file it calls
  \<open>file.calcFingerprint()\<close>. No class in src declares any of these. A directory is
  represented here by the two fields read, a file by its identity as member of a set.
\<close>

record vdir =
  vd_uuid :: uuid
  vd_name :: string

datatype tick = Tick_scheduleFileHash | Tick_scheduleDirRead

text \<open>
  \<open>path.join\<close> of Node.js on POSIX, for two arguments: the non-empty arguments are put
  together with a slash between them and the result is normalised. Normalising drops empty
  segments and \<open>.\<close>, lets \<open>..\<close> take back the segment before it (a relative path keeps
  the \<open>..\<close> that take back nothing), and keeps a leading and a trailing slash.
\<close>

fun split_slash :: "string \<Rightarrow> string \<Rightarrow> string list" where
  "split_slash seg [] = [seg]"
| "split_slash seg (c # cs) =
     (if c = CHR ''/'' then seg # split_slash [] cs else split_slash (seg @ [c]) cs)"

fun normalizeString :: "bool \<Rightarrow> string list \<Rightarrow> string list \<Rightarrow> string list" where
  "normalizeString allowAboveRoot res [] = res"
| "normalizeString allowAboveRoot res (s # ss) =
     (if s = [] \<or> s = ''.'' then normalizeString allowAboveRoot res ss
      else if s = ''..'' then
        (if res \<noteq> [] \<and> last res \<noteq> ''..'' then normalizeString allowAboveRoot (butlast res) ss
         else if allowAboveRoot then normalizeString allowAboveRoot (res @ [''..'']) ss
         else normalizeString allowAboveRoot res ss)
      else normalizeString allowAboveRoot (res @ [s]) ss)"

fun join_slash :: "string list \<Rightarrow> string" where
  "join_slash [] = []"
| "join_slash [s] = s"
| "join_slash (s # t # ss) = s @ ''/'' @ join_slash (t # ss)"

definition path_normalize :: "string \<Rightarrow> string" where
  "path_normalize p =
     (if p = [] then ''.''
      else
        (let isAbsolute = (hd p = CHR ''/'');
             trailingSeparator = (last p = CHR ''/'');
             q = join_slash (normalizeString (\<not> isAbsolute) [] (split_slash [] p))
         in if q = [] then (if isAbsolute then ''/'' else if trailingSeparator then ''./'' else ''.'')
            else (if isAbsolute then ''/'' else []) @ q @ (if trailingSeparator then ''/'' else [])))"

definition path_join :: "string \<Rightarrow> string \<Rightarrow> string" where
  "path_join a b =
     (if a = [] \<and> b = [] then ''.''
      else if a = [] then path_normalize b
      else if b = [] then path_normalize a
      else path_normalize (a @ ''/'' @ b))"

text \<open>
  The fields the constructor initialises, the two flags, the queue of \<open>process.nextTick\<close>
  callbacks, and the events emitted on the forest. \<open>roots\<close> and \<open>uuidMap\<close> hold Directory
  objects. The constructor also runs \<open>mkdirp.sync(this.dir)\<close>; the value below is the forest
  it leaves when that call returns. \<open>mediaMap\<close> is only handed on by \<open>fileEnterHashed\<close> and
  \<open>fileExitHashed\<close>, which touch no field of the forest, and is left out.
\<close>

record forest =
  dir :: string
  roots :: "uuid \<rightharpoonup> vdir"
  uuidMap :: "uuid \<rightharpoonup> vdir"
  initDirs :: "uuid list"
  pendingDirs :: "uuid list"
  readingDirs :: "uuid list"
  hashlessFiles :: "nat list"
  hashingFiles :: "nat list"
  hashFailedFiles :: "nat list"
  fileHashScheduled :: bool
  dirReadScheduled :: bool
  ticks :: "tick list"
  emitted :: "string list"

definition Forest_constructor :: "string \<Rightarrow> forest" where
  "Forest_constructor froot =
     \<lparr>dir = path_join froot ''drives'', roots = Map.empty, uuidMap = Map.empty, initDirs = [],
      pendingDirs = [], readingDirs = [], hashlessFiles = [], hashingFiles = [],
      hashFailedFiles = [], fileHashScheduled = False, dirReadScheduled = False,
      ticks = [], emitted = []\<rparr>"

definition fileEnterHashless :: "nat \<Rightarrow> forest \<Rightarrow> forest" where
  "fileEnterHashless x f = f\<lparr>hashlessFiles := set_add x (hashlessFiles f)\<rparr>"

definition fileExitHashless :: "nat \<Rightarrow> forest \<Rightarrow> forest" where
  "fileExitHashless x f = f\<lparr>hashlessFiles := set_delete x (hashlessFiles f)\<rparr>"

definition fileEnterHashing :: "nat \<Rightarrow> forest \<Rightarrow> forest" where
  "fileEnterHashing x f = f\<lparr>hashingFiles := set_add x (hashingFiles f)\<rparr>"

definition fileExitHashing :: "nat \<Rightarrow> forest \<Rightarrow> forest" where
  "fileExitHashing x f = f\<lparr>hashingFiles := set_delete x (hashingFiles f)\<rparr>"

definition fileEnterHashFailed :: "nat \<Rightarrow> forest \<Rightarrow> forest" where
  "fileEnterHashFailed x f = f\<lparr>hashFailedFiles := set_add x (hashFailedFiles f)\<rparr>"

definition fileExitHashFailed :: "nat \<Rightarrow> forest \<Rightarrow> forest" where
  "fileExitHashFailed x f = f\<lparr>hashFailedFiles := set_delete x (hashFailedFiles f)\<rparr>"

definition reqSchedFileHash :: "forest \<Rightarrow> forest" where
  "reqSchedFileHash f =
     (if fileHashScheduled f then f
      else f\<lparr>fileHashScheduled := True, ticks := ticks f @ [Tick_scheduleFileHash]\<rparr>)"

definition reqSchedDirRead :: "forest \<Rightarrow> forest" where
  "reqSchedDirRead f =
     (if dirReadScheduled f then f
      else f\<lparr>dirReadScheduled := True, ticks := ticks f @ [Tick_scheduleDirRead]\<rparr>)"

definition indexDirectory :: "vdir \<Rightarrow> forest \<Rightarrow> forest" where
  "indexDirectory d f = f\<lparr>uuidMap := (uuidMap f)(vd_uuid d \<mapsto> d)\<rparr>"

definition unindexDirectory :: "vdir \<Rightarrow> forest \<Rightarrow> forest" where
  "unindexDirectory d f = f\<lparr>uuidMap := (uuidMap f)(vd_uuid d := None)\<rparr>"

definition dirEnterInit :: "vdir \<Rightarrow> forest \<Rightarrow> forest" where
  "dirEnterInit d f = reqSchedDirRead (f\<lparr>initDirs := set_add (vd_uuid d) (initDirs f)\<rparr>)"

definition dirExitInit :: "vdir \<Rightarrow> forest \<Rightarrow> forest" where
  "dirExitInit d f = reqSchedDirRead (f\<lparr>initDirs := set_delete (vd_uuid d) (initDirs f)\<rparr>)"

definition dirEnterPending :: "vdir \<Rightarrow> forest \<Rightarrow> forest" where
  "dirEnterPending d f = reqSchedDirRead (f\<lparr>pendingDirs := set_add (vd_uuid d) (pendingDirs f)\<rparr>)"

definition dirExitPending :: "vdir \<Rightarrow> forest \<Rightarrow> forest" where
  "dirExitPending d f = reqSchedDirRead (f\<lparr>pendingDirs := set_delete (vd_uuid d) (pendingDirs f)\<rparr>)"

definition dirEnterReading :: "vdir \<Rightarrow> forest \<Rightarrow> forest" where
  "dirEnterReading d f = reqSchedDirRead (f\<lparr>readingDirs := set_add (vd_uuid d) (readingDirs f)\<rparr>)"

definition dirExitReading :: "vdir \<Rightarrow> forest \<Rightarrow> forest" where
  "dirExitReading d f = reqSchedDirRead (f\<lparr>readingDirs := set_delete (vd_uuid d) (readingDirs f)\<rparr>)"

definition dirReadSettled :: "forest \<Rightarrow> bool" where
  "dirReadSettled f = (length (initDirs f) = 0 \<and> length (pendingDirs f) = 0 \<and> length (readingDirs f) = 0)"

text \<open>
  Modelled from the spec: \<open>file.calcFingerprint()\<close> and \<open>dir.read()\<close> are declared by no
  class in src. Section 4.3 says that a pass pulls directories out of the needs-probing
  bucket and issues a read to each, and that the hash scheduler follows the same pattern:
  the node leaves the waiting bucket and enters the running one, through the bucket
  operations of Forest.
\<close>

definition calcFingerprint :: "nat \<Rightarrow> forest \<Rightarrow> forest" where
  "calcFingerprint x f = fileEnterHashing x (fileExitHashless x f)"

definition dir_read :: "vdir \<Rightarrow> forest \<Rightarrow> forest" where
  "dir_read d f = dirEnterReading d (dirExitInit d f)"

text \<open>
  The loop of \<open>scheduleFileHash\<close>. Each round removes the oldest hashless file from its
  bucket, so the loop ends.
\<close>

function scheduleFileHash_loop :: "forest \<Rightarrow> forest" where
  "scheduleFileHash_loop f =
     (if length (hashlessFiles f) > 0 \<and> length (hashingFiles f) < 2
      then scheduleFileHash_loop (calcFingerprint (hd (hashlessFiles f)) f)
      else f)"
  by pat_completeness auto
termination
proof (relation "measure (\<lambda>f. length (hashlessFiles f))")
  show "wf (measure (\<lambda>f. length (hashlessFiles f)))"
    by simp
next
  fix f :: forest
  assume a: "0 < length (hashlessFiles f) \<and> length (hashingFiles f) < 2"
  then obtain x xs where xs: "hashlessFiles f = x # xs"
    by (cases "hashlessFiles f") auto
  have "length (removeAll x xs) \<le> length xs"
    by (rule length_removeAll_less_eq)
  then have "length (removeAll x xs) < Suc (length xs)"
    by (rule le_imp_less_Suc)
  then show "(calcFingerprint (hd (hashlessFiles f)) f, f) \<in> measure (\<lambda>f. length (hashlessFiles f))"
    by (simp add: xs calcFingerprint_def fileEnterHashing_def fileExitHashless_def set_delete_def)
qed

declare scheduleFileHash_loop.simps [simp del]

definition scheduleFileHash :: "forest \<Rightarrow> forest" where
  "scheduleFileHash f = scheduleFileHash_loop (f\<lparr>fileHashScheduled := False\<rparr>)"

text \<open>
  The loop of \<open>scheduleDirRead\<close>. When the oldest uuid of \<open>initDirs\<close> has no entry in
  \<open>uuidMap\<close>, the round changes nothing and the loop never ends: the result is then \<open>None\<close>.
\<close>

partial_function (option) scheduleDirRead_loop :: "forest \<Rightarrow> forest option" where
  "scheduleDirRead_loop f =
     (if length (initDirs f) > 0 \<and> length (readingDirs f) < 6
      then (case uuidMap f (hd (initDirs f)) of
              Some d \<Rightarrow> scheduleDirRead_loop (dir_read d f)
            | None \<Rightarrow> scheduleDirRead_loop f)
      else Some f)"

definition scheduleDirRead :: "forest \<Rightarrow> forest option" where
  "scheduleDirRead f =
     (let f1 = f\<lparr>dirReadScheduled := False\<rparr>
      in if dirReadSettled f1 then Some (f1\<lparr>emitted := emitted f1 @ [''dirReadSettled'']\<rparr>)
         else scheduleDirRead_loop f1)"

text \<open>
  One callback of the \<open>process.nextTick\<close> queue: the oldest is taken off the queue and run.
\<close>

definition runTick :: "forest \<Rightarrow> forest option" where
  "runTick f =
     (case ticks f of
        [] \<Rightarrow> Some f
      | Tick_scheduleFileHash # ts \<Rightarrow> Some (scheduleFileHash (f\<lparr>ticks := ts\<rparr>))
      | Tick_scheduleDirRead # ts \<Rightarrow> scheduleDirRead (f\<lparr>ticks := ts\<rparr>))"

definition node_id :: "node \<Rightarrow> nat" where
  "node_id n = (case n of FileNode f \<Rightarrow> f_id f | DirNode d cs \<Rightarrow> d_id d)"

text \<open>
  Modelled from the spec: the class Directory that this module requires from
  \<open>./directory\<close> is not in src. (The Directory of src/unnamed/part_001 is the one of the
  copy machine: its states call \<open>ctx.indexPendingDir\<close> and the like, which Forest does not
  have, and it has none of \<open>uuid\<close>, \<open>name\<close> and \<open>read()\<close> that Forest uses.) Section 3 says
  that the global index entries are created on node construction, and sections 3 and 4.3
  that the id of a Directory is the one stamped on the directory it stands for: the
  constructor takes \<open>uuid\<close> and \<open>name\<close> from the xstat and registers the new object with
  \<open>indexDirectory\<close>. In which of the three directory buckets a new Directory starts is said
  nowhere, and none is entered here.
\<close>

definition Directory_new :: "forest \<Rightarrow> vdir option \<Rightarrow> xstat \<Rightarrow> forest \<times> vdir" where
  "Directory_new f parent xstat =
     (let d = \<lparr>vd_uuid = x_uuid xstat, vd_name = x_name xstat\<rparr> in (indexDirectory d f, d))"

text \<open>
  \<open>createRoot\<close>. \<open>mkdirp\<close> is an external package and \<open>forceXstat\<close> (lib/xstat) is not in
  src: the calls made to them are recorded, and what each hands to its callback (an error,
  or for \<open>forceXstat\<close> an xstat) is an input. The result is the forest, the calls in order,
  and the arguments of \<open>callback\<close>.
\<close>

datatype fscall = Mkdirp string | ForceXstat string uuid

definition createRoot ::
  "uuid \<Rightarrow> jserror option \<Rightarrow> jserror + xstat \<Rightarrow> forest \<Rightarrow> forest \<times> fscall list \<times> (jserror + vdir)" where
  "createRoot uuid mkdirp_result forceXstat_result f =
     (let dirPath = path_join (dir f) uuid in
      case mkdirp_result of
        Some err \<Rightarrow> (f, [Mkdirp dirPath], Inl err)
      | None \<Rightarrow>
          (case forceXstat_result of
             Inl err \<Rightarrow> (f, [Mkdirp dirPath, ForceXstat dirPath uuid], Inl err)
           | Inr xstat \<Rightarrow>
               (case Directory_new f None xstat of
                  (f1, root) \<Rightarrow>
                    (f1\<lparr>roots := (roots f1)(uuid \<mapsto> root)\<rparr>,
                     [Mkdirp dirPath, ForceXstat dirPath uuid], Inr root))))"

section \<open>Executions of the Forest schedulers\<close>

text \<open>A change of membership in one of the three directory buckets.\<close>

datatype change =
    EnterInit vdir
  | ExitInit vdir
  | EnterPending vdir
  | ExitPending vdir
  | EnterReading vdir
  | ExitReading vdir

fun dir_change :: "change \<Rightarrow> forest \<Rightarrow> forest" where
  "dir_change (EnterInit d) f = dirEnterInit d f"
| "dir_change (ExitInit d) f = dirExitInit d f"
| "dir_change (EnterPending d) f = dirEnterPending d f"
| "dir_change (ExitPending d) f = dirExitPending d f"
| "dir_change (EnterReading d) f = dirEnterReading d f"
| "dir_change (ExitReading d) f = dirExitReading d f"

text \<open>A change of membership in one of the three file buckets.\<close>

datatype fchange =
    EnterHashless nat
  | ExitHashless nat
  | EnterHashing nat
  | ExitHashing nat
  | EnterHashFailed nat
  | ExitHashFailed nat

fun file_change :: "fchange \<Rightarrow> forest \<Rightarrow> forest" where
  "file_change (EnterHashless x) f = fileEnterHashless x f"
| "file_change (ExitHashless x) f = fileExitHashless x f"
| "file_change (EnterHashing x) f = fileEnterHashing x f"
| "file_change (ExitHashing x) f = fileExitHashing x f"
| "file_change (EnterHashFailed x) f = fileEnterHashFailed x f"
| "file_change (ExitHashFailed x) f = fileExitHashFailed x f"

text \<open>
  The states a forest passes through: every operation of the class on the index, the
  buckets, the requests for a pass and the roots may be called by the directories, the
  files and the other components, in any number and order, between the callbacks of the
  tick queue. A read that a component requests outside a pass is \<open>dirExitInit\<close> followed by
  \<open>dirEnterReading\<close>.
\<close>

inductive reachable :: "forest \<Rightarrow> bool" where
  start: "reachable (Forest_constructor froot)"
| index: "reachable f \<Longrightarrow> reachable (indexDirectory d f)"
| unindex: "reachable f \<Longrightarrow> reachable (unindexDirectory d f)"
| dirChange: "reachable f \<Longrightarrow> reachable (dir_change ch f)"
| fileChange: "reachable f \<Longrightarrow> reachable (file_change fch f)"
| reqFileHash: "reachable f \<Longrightarrow> reachable (reqSchedFileHash f)"
| reqDirRead: "reachable f \<Longrightarrow> reachable (reqSchedDirRead f)"
| root: "reachable f \<Longrightarrow> createRoot uuid m x f = (f', calls, r) \<Longrightarrow> reachable f'"
| tick: "reachable f \<Longrightarrow> runTick f = Some f' \<Longrightarrow> reachable f'"

text \<open>The passes of one scheduler waiting on the tick queue.\<close>

definition pending_passes :: "tick \<Rightarrow> forest \<Rightarrow> nat" where
  "pending_passes t f = count_list (ticks f) t"

text \<open>A flag is set exactly when one pass of its scheduler waits, and none otherwise.\<close>

definition debounced :: "forest \<Rightarrow> bool" where
  "debounced f =
     (pending_passes Tick_scheduleDirRead f = (if dirReadScheduled f then 1 else 0) \<and>
      pending_passes Tick_scheduleFileHash f = (if fileHashScheduled f then 1 else 0))"

section \<open>The buckets of a file\<close>








section \<open>Predicates on trees of nodes\<close>

text \<open>
  A child from which its parent hears nothing more: a file in Failed, or a directory in
  Failed without children.
\<close>

fun terminal :: "node \<Rightarrow> bool" where
  "terminal (FileNode f) = (f_live f = File_Failed)"
| "terminal (DirNode d cs) = (d_state d = Dir_Failed \<and> cs = [])"

text \<open>
  Children are handled one after the other: a directory has children in Read only, and
  every child but the youngest is terminal; the same holds below.
\<close>

fun serial :: "node \<Rightarrow> bool" and serial_children :: "node list \<Rightarrow> bool" where
  "serial (FileNode f) = True"
| "serial (DirNode d cs) =
     ((cs = [] \<or> d_state d = Dir_Read) \<and> list_all terminal (butlast cs) \<and> serial_children cs)"
| "serial_children [] = True"
| "serial_children (n # ns) = (serial n \<and> serial_children ns)"

text \<open>
  A node and everything below it.
\<close>

fun all_nodes :: "node \<Rightarrow> node list" where
  "all_nodes (FileNode f) = [FileNode f]"
| "all_nodes (DirNode d cs) = DirNode d cs # concat (map all_nodes cs)"

text \<open>
  The bucket of the context that belongs to a directory state.
\<close>

definition bucket_of :: "dstate \<Rightarrow> ctx \<Rightarrow> nat set" where
  "bucket_of s c =
     (case s of
        Dir_Pending \<Rightarrow> pendingDir c
      | Dir_Making p \<Rightarrow> makingDir c
      | Dir_Conflict e p \<Rightarrow> conflictDir c
      | Dir_Reading \<Rightarrow> readingDir c
      | Dir_Read \<Rightarrow> readDir c
      | Dir_Failed \<Rightarrow> failedDir c
      | Dir_Finished \<Rightarrow> finishedDir c)"

text \<open>
  A context with the members of the buckets of another taken out, the union of the buckets
  of two contexts, and the functions on contexts that only take members out of buckets.
\<close>

definition without :: "ctx \<Rightarrow> ctx \<Rightarrow> ctx" where
  "without c r =
     c\<lparr>pendingFile := pendingFile c - pendingFile r,
       workingFile := workingFile c - workingFile r,
       conflictFile := conflictFile c - conflictFile r,
       failedFile := failedFile c - failedFile r,
       finishedFile := finishedFile c - finishedFile r,
       pendingDir := pendingDir c - pendingDir r,
       makingDir := makingDir c - makingDir r,
       conflictDir := conflictDir c - conflictDir r,
       readingDir := readingDir c - readingDir r,
       readDir := readDir c - readDir r,
       failedDir := failedDir c - failedDir r,
       finishedDir := finishedDir c - finishedDir r\<rparr>"

definition both :: "ctx \<Rightarrow> ctx \<Rightarrow> ctx" where
  "both r s =
     r\<lparr>pendingFile := pendingFile r \<union> pendingFile s,
       workingFile := workingFile r \<union> workingFile s,
       conflictFile := conflictFile r \<union> conflictFile s,
       failedFile := failedFile r \<union> failedFile s,
       finishedFile := finishedFile r \<union> finishedFile s,
       pendingDir := pendingDir r \<union> pendingDir s,
       makingDir := makingDir r \<union> makingDir s,
       conflictDir := conflictDir r \<union> conflictDir s,
       readingDir := readingDir r \<union> readingDir s,
       readDir := readDir r \<union> readDir s,
       failedDir := failedDir r \<union> failedDir s,
       finishedDir := finishedDir r \<union> finishedDir s\<rparr>"

definition removal :: "(ctx \<Rightarrow> ctx) \<Rightarrow> bool" where
  "removal g = (\<exists>r. \<forall>c. g c = without c r)"

section \<open>Example values\<close>

definition ex_parent :: parent where
  "ex_parent = \<lparr>p_srcUUID = SrcUUID ''src-dir'', p_dstUUID = Some ''dst-dir''\<rparr>"

definition ex_conflict :: jserror where
  "ex_conflict = \<lparr>e_code = Some ''EEXIST'', e_xcode = Some ''ECONFLICT'', e_message = ''file exists''\<rparr>"

definition ex_eio :: jserror where
  "ex_eio = \<lparr>e_code = Some ''EIO'', e_xcode = None, e_message = ''i/o error''\<rparr>"

definition ex_working :: filerec where
  "ex_working = \<lparr>f_id = 1, f_srcUUID = ''file-1'', f_srcName = ''a.txt'', f_policy = None,
     f_state = File_Pending, f_live = File_Working (Some ''rename'')\<rparr>"

definition ex_dirs :: "vdir list" where
  "ex_dirs = map (\<lambda>u. \<lparr>vd_uuid = u, vd_name = u\<rparr>)
     [''d1'', ''d2'', ''d3'', ''d4'', ''d5'', ''d6'', ''d7'', ''d8'']"

definition ex_burst :: forest where
  "ex_burst =
     reqSchedFileHash
       (fold fileEnterHashless [1, 2, 3, 4, 5]
          (fold (\<lambda>d f. dirEnterInit d (indexDirectory d f)) ex_dirs (Forest_constructor ''/data'')))"

definition ex_crowd :: forest where
  "ex_crowd =
     fold file_change (map EnterHashing [1, 2, 3])
       (fold dir_change (map EnterReading (take 7 ex_dirs)) (Forest_constructor ''/data''))"

definition ex_file_entry :: "string \<Rightarrow> string \<Rightarrow> xstat" where
  "ex_file_entry u n = \<lparr>x_uuid = u, x_type = ''file'', x_name = n\<rparr>"

definition ex_read_dir :: dirrec where
  "ex_read_dir = \<lparr>d_id = 0, d_srcUUID = SrcUUID ''src-dir'', d_dstUUID = Some ''dst-dir'',
     d_dstats = [], d_fstats = [ex_file_entry ''file-2'' ''b.txt''], d_policy = (None, None),
     d_state = Dir_Read\<rparr>"

definition ex_ctx :: ctx where
  "ex_ctx = emptyCtx\<lparr>readDir := {0}, workingFile := {1}, nextId := 2\<rparr>"

definition ex_eexist :: jserror where
  "ex_eexist = \<lparr>e_code = Some ''EEXIST'', e_xcode = None, e_message = ''directory exists''\<rparr>"

definition ex_conflict_dir :: dirrec where
  "ex_conflict_dir = \<lparr>d_id = 3, d_srcUUID = SrcUUID ''src-sub'', d_dstUUID = None,
     d_dstats = [], d_fstats = [], d_policy = (Some ''skip'', None),
     d_state = Dir_Conflict ex_eexist (Some ''skip'', None)\<rparr>"

definition ex_defaults :: ctx where
  "ex_defaults = emptyCtx\<lparr>policies_file := Some ''rename'', policies_dir := (Some ''skip'', None)\<rparr>"

definition ex_conflict2 :: jserror where
  "ex_conflict2 = \<lparr>e_code = Some ''EEXIST'', e_xcode = Some ''ECONFLICT'',
     e_message = ''another file exists''\<rparr>"

definition ex_making :: dirrec where
  "ex_making = \<lparr>d_id = 3, d_srcUUID = SrcUUID ''src-sub'', d_dstUUID = None,
     d_dstats = [], d_fstats = [], d_policy = (None, None),
     d_state = Dir_Making (Some ''skip'', None)\<rparr>"


text \<open>A file child that does nothing when asked to retry.\<close>

definition no_file_retry :: "filerec \<Rightarrow> ctx \<Rightarrow> ctx \<times> filerec" where
  "no_file_retry f c = (c, f)"

definition ex_listing :: "xstat list" where
  "ex_listing = [ex_file_entry ''file-1'' ''a.txt'', ex_file_entry ''file-2'' ''b.txt'',
                 ex_file_entry ''file-3'' ''c.txt'']"

definition ex_sub_entry :: xstat where
  "ex_sub_entry = \<lparr>x_uuid = ''sub-1'', x_type = ''directory'', x_name = ''sub''\<rparr>"

definition ex_made :: xstat where
  "ex_made = \<lparr>x_uuid = ''dst-sub'', x_type = ''directory'', x_name = ''sub''\<rparr>"

section \<open>Properties of the File machine\<close>

lemmas file_index_defs =
  indexPendingFile_def unindexPendingFile_def indexWorkingFile_def unindexWorkingFile_def
  indexConflictFile_def unindexConflictFile_def indexFailedFile_def unindexFailedFile_def
  indexFinishedFile_def unindexFinishedFile_def call_def

text \<open>
  Claim C1. A file in Working whose copy fails with an error whose \<open>xcode\<close> is
  \<open>ECONFLICT\<close> moves to Conflict, but the Conflict state carries neither the error nor the
  policy: the callback calls \<open>setState(Conflict, err, policy)\<close> and \<open>Conflict.enter()\<close>
  takes no parameter, so the file, its state and the context come out the same for any
  other conflict error and any other policy. The Conflict state of a Directory, made by
  \<open>setState(Conflict, err, policy)\<close> in the same way, holds both.
\<close>

theorem Conflict_keeps_neither_error_nor_policy:
  assumes "e_xcode e = Some ''ECONFLICT''" and "e_xcode e' = Some ''ECONFLICT''"
    and "e_code x = Some ''EEXIST''"
  shows "(case cpFile_done (Some e) par (f\<lparr>f_live := File_Working pol\<rparr>) c of
            (c1, f1, g1) \<Rightarrow>
              f_live f1 = File_Conflict \<and> f_id f \<in> conflictFile c1 \<and> g1 = None \<and>
              trace c1 = trace c \<and>
              cpFile_done (Some e') par (f\<lparr>f_live := File_Working pol'\<rparr>) c = (c1, f1, g1))
       \<and> (case mkdirc_done (Inl x) par (d\<lparr>d_state := Dir_Making dpol\<rparr>) cs c of
            (c1, n1, g1) \<Rightarrow> state_of n1 = Some (Dir_Conflict x dpol))"
  using assms
  by (simp add: cpFile_done_def File_State_setState_def Working_callback_def file_index_defs
      mkdirc_done_def Dir_State_setState_def Conflict_new_def state_of_def)

theorem Conflict_keeps_neither_error_nor_policy_witness:
  "e_xcode ex_conflict = Some ''ECONFLICT'' \<and> e_xcode ex_conflict2 = Some ''ECONFLICT''
   \<and> e_code ex_eexist = Some ''EEXIST'' \<and> ex_conflict \<noteq> ex_conflict2
   \<and> (case File_constructor ex_defaults ''file-1'' ''a.txt'' of
        (c0, f0) \<Rightarrow>
          (case file_input Schedule ex_parent f0 c0 of
             (c1, f1, g1) \<Rightarrow>
               f_live f1 = File_Working (Some ''rename'')
               \<and> trace c1 = [CpFile 0 (SrcUUID ''src-dir'') ''file-1'' ''a.txt'' (Some ''dst-dir'')
                                (Some ''rename'')]
               \<and> cpFile_done (Some ex_conflict) ex_parent f1 c1
                   = (c1\<lparr>workingFile := {}, conflictFile := {0}\<rparr>,
                      \<lparr>f_id = 0, f_srcUUID = ''file-1'', f_srcName = ''a.txt'', f_policy = None,
                       f_state = File_Pending, f_live = File_Conflict\<rparr>, None)
               \<and> cpFile_done (Some ex_conflict2) ex_parent (f1\<lparr>f_live := File_Working (Some ''skip'')\<rparr>) c1
                   = cpFile_done (Some ex_conflict) ex_parent f1 c1))
   \<and> state_of (fst (snd (mkdirc_done (Inl ex_eexist) ex_parent ex_making [] ex_defaults)))
       = Some (Dir_Conflict ex_eexist (Some ''skip'', None))"
  using Conflict_keeps_neither_error_nor_policy [where e = ex_conflict and e' = ex_conflict2
      and x = ex_eexist and par = ex_parent and pol = "Some ''rename''" and pol' = "Some ''skip''"
      and f = "\<lparr>f_id = 0, f_srcUUID = ''file-1'', f_srcName = ''a.txt'', f_policy = None,
                 f_state = File_Pending, f_live = File_Working (Some ''rename'')\<rparr>"
      and c = "fst (file_input Schedule ex_parent (snd (File_constructor ex_defaults ''file-1'' ''a.txt''))
                 (fst (File_constructor ex_defaults ''file-1'' ''a.txt'')))"
      and d = ex_making and dpol = "(Some ''skip'', None)" and cs = "[]"]
  by (simp add: ex_conflict_def ex_conflict2_def ex_eexist_def ex_parent_def ex_defaults_def
      ex_making_def emptyCtx_def File_constructor_def File_setState_def File_State_setState_def
      cpFile_done_def Working_callback_def File_getPolicy_def truthy_def Let_def file_index_defs
      mkdirc_done_def Dir_State_setState_def Conflict_new_def state_of_def indexConflictDir_def
      unindexMakingDir_def)

text \<open>
  Entering Working registers the file in the working bucket and calls the copy
  collaborator with the source directory id, the source file id, the source file name, the
  destination directory id and the resolved policy: the policy of the file if it is set
  and not empty, else the default file policy of the context if that is, else \<open>null\<close>. For
  a file whose live state is Working, the callback without an error moves it to Finished,
  which emits \<open>finish\<close>; with an error whose \<open>xcode\<close> is \<open>ECONFLICT\<close> it moves the file to
  Conflict; with any other error it moves the file to Failed, which emits the error.
\<close>

theorem Working_settles_by_copy_result:
  assumes "f_live f = File_Working pol"
  shows "(case File_State_new To_Working par f c of
            (c1, s1, g1) \<Rightarrow>
              s1 = File_Working
                     (if truthy (f_policy f) then f_policy f
                      else if truthy (policies_file c) then policies_file c else None) \<and>
              f_id f \<in> workingFile c1 \<and> g1 = None \<and>
              trace c1 = trace c @
                [CpFile (f_id f) (p_srcUUID par) (f_srcUUID f) (f_srcName f) (p_dstUUID par)
                   (if truthy (f_policy f) then f_policy f
                    else if truthy (policies_file c) then policies_file c else None)])
       \<and> (case cpFile_done None par f c of
            (c1, f1, g1) \<Rightarrow>
              f_live f1 = File_Finished \<and> f_id f \<in> finishedFile c1 \<and> f_id f \<notin> workingFile c1 \<and>
              g1 = Some SigFinish)
       \<and> (e_xcode e = Some ''ECONFLICT'' \<longrightarrow>
            (case cpFile_done (Some e) par f c of
               (c1, f1, g1) \<Rightarrow>
                 f_live f1 = File_Conflict \<and>
                 f_id f \<in> conflictFile c1 \<and> f_id f \<notin> workingFile c1 \<and> g1 = None))
       \<and> (e_xcode e' \<noteq> Some ''ECONFLICT'' \<longrightarrow>
            (case cpFile_done (Some e') par f c of
               (c1, f1, g1) \<Rightarrow>
                 f_live f1 = File_Failed \<and>
                 f_id f \<in> failedFile c1 \<and> f_id f \<notin> workingFile c1 \<and> g1 = Some (SigError e') \<and>
                 trace c1 = trace c @ [Emit (f_id f) (SigError e')]))"
  using assms
  by (simp add: cpFile_done_def File_State_setState_def Working_callback_def File_getPolicy_def
      Let_def file_index_defs)

theorem Working_settles_by_copy_result_witness:
  "f_live ex_working = File_Working (Some ''rename'')
   \<and> e_xcode ex_conflict = Some ''ECONFLICT''
   \<and> e_xcode ex_eio \<noteq> Some ''ECONFLICT''
   \<and> trace (fst (File_State_new To_Working ex_parent ex_working ex_defaults))
       = [CpFile 1 (SrcUUID ''src-dir'') ''file-1'' ''a.txt'' (Some ''dst-dir'') (Some ''rename'')]
   \<and> trace (fst (File_State_new To_Working ex_parent (ex_working\<lparr>f_policy := Some ''skip''\<rparr>) ex_defaults))
       = [CpFile 1 (SrcUUID ''src-dir'') ''file-1'' ''a.txt'' (Some ''dst-dir'') (Some ''skip'')]
   \<and> trace (fst (File_State_new To_Working ex_parent (ex_working\<lparr>f_policy := Some []\<rparr>) ex_defaults))
       = [CpFile 1 (SrcUUID ''src-dir'') ''file-1'' ''a.txt'' (Some ''dst-dir'') (Some ''rename'')]
   \<and> trace (fst (File_State_new To_Working ex_parent ex_working emptyCtx))
       = [CpFile 1 (SrcUUID ''src-dir'') ''file-1'' ''a.txt'' (Some ''dst-dir'') None]
   \<and> f_live (fst (snd (cpFile_done None ex_parent ex_working ex_defaults))) = File_Finished
   \<and> f_live (fst (snd (cpFile_done (Some ex_conflict) ex_parent ex_working ex_defaults))) = File_Conflict
   \<and> f_live (fst (snd (cpFile_done (Some ex_eio) ex_parent ex_working ex_defaults))) = File_Failed
   \<and> snd (snd (cpFile_done (Some ex_eio) ex_parent ex_working ex_defaults)) = Some (SigError ex_eio)"
  using Working_settles_by_copy_result [where f = ex_working and pol = "Some ''rename''" and par = ex_parent
      and c = ex_defaults and e = ex_conflict and e' = ex_eio]
    Working_settles_by_copy_result [where f = "ex_working\<lparr>f_policy := Some ''skip''\<rparr>" and pol = "Some ''rename''"
      and par = ex_parent and c = ex_defaults and e = ex_conflict and e' = ex_eio]
    Working_settles_by_copy_result [where f = "ex_working\<lparr>f_policy := Some []\<rparr>" and pol = "Some ''rename''"
      and par = ex_parent and c = ex_defaults and e = ex_conflict and e' = ex_eio]
    Working_settles_by_copy_result [where f = ex_working and pol = "Some ''rename''" and par = ex_parent
      and c = emptyCtx and e = ex_conflict and e' = ex_eio]
  by (simp add: ex_working_def ex_conflict_def ex_eio_def ex_parent_def ex_defaults_def emptyCtx_def
      truthy_def split: prod.splits)

text \<open>
  Claim C8. A file is constructed, scheduled, and its copy fails with a conflict: it is in
  Conflict. A different policy is then set on the file and \<open>resolve()\<close> is called.
  \<open>File.resolve\<close> dispatches on \<open>file.state\<close>, which is still the Pending object of the
  constructor, whose \<open>resolve\<close> is the empty base method: the context and the file are
  unchanged and no copy is started. The \<open>resolve\<close> of the Conflict object itself raises a
  TypeError.
\<close>

theorem resolve_never_reenters_Working:
  "(case File_constructor emptyCtx ''file-1'' ''a.txt'' of
      (c0, f0) \<Rightarrow>
        (case file_input Schedule ex_parent f0 c0 of
           (c1, f1, g1) \<Rightarrow>
             (case cpFile_done (Some ex_conflict) ex_parent f1 c1 of
                (c2, f2, g2) \<Rightarrow>
                  f_live f2 = File_Conflict
                  \<and> f_id f2 \<in> conflictFile c2
                  \<and> File_getPolicy c2 (File_setPolicy (Some ''rename'') f2) \<noteq> File_getPolicy c2 f2
                  \<and> File_resolve ex_parent (File_setPolicy (Some ''rename'') f2) c2
                      = Inr (c2, File_setPolicy (Some ''rename'') f2)
                  \<and> File_State_resolve (f_live f2) ex_parent (File_setPolicy (Some ''rename'') f2) c2
                      = Inl TypeError)))"
  by (simp add: File_constructor_def File_setState_def File_State_setState_def cpFile_done_def
      Working_callback_def File_getPolicy_def File_setPolicy_def File_resolve_def truthy_def
      ex_conflict_def ex_parent_def emptyCtx_def Let_def file_index_defs)











text \<open>
  Claim C4. A file is constructed and set to Working. \<open>File.destroy\<close> runs the \<open>exit\<close> of
  \<open>file.state\<close>, the Pending object of the constructor, so the file stays in the working
  bucket after it is destroyed. A second \<open>destroy\<close> changes nothing more.
\<close>

theorem destroy_leaves_working_file_registered:
  "(case File_constructor c u n of
      (c0, f0) \<Rightarrow>
        (case File_setState To_Working par f0 c0 of
           (c1, f1, g1) \<Rightarrow>
             f_live f1 = File_Working (File_getPolicy c f0) \<and> f_state f1 = File_Pending \<and>
             f_id f1 \<in> workingFile c1 \<and>
             f_id f1 \<in> workingFile (File_destroy f1 c1) \<and>
             File_destroy f1 (File_destroy f1 c1) = File_destroy f1 c1))"
  by (simp add: File_constructor_def File_setState_def File_State_setState_def File_destroy_def
      File_getPolicy_def Let_def file_index_defs)

section \<open>Properties of the Forest schedulers\<close>

lemmas forest_op_defs =
  fileEnterHashless_def fileExitHashless_def fileEnterHashing_def fileExitHashing_def
  fileEnterHashFailed_def fileExitHashFailed_def reqSchedFileHash_def reqSchedDirRead_def
  indexDirectory_def unindexDirectory_def dirEnterInit_def dirExitInit_def dirEnterPending_def
  dirExitPending_def dirEnterReading_def dirExitReading_def

lemma length_set_add: "length (set_add x xs) \<le> Suc (length xs)"
  by (simp add: set_add_def)

lemma calcFingerprint_buckets:
  "length (hashingFiles (calcFingerprint x f)) \<le> Suc (length (hashingFiles f))"
  "readingDirs (calcFingerprint x f) = readingDirs f"
  using length_set_add [of x "hashingFiles f"]
  by (simp_all add: calcFingerprint_def fileEnterHashing_def fileExitHashless_def)

lemma dir_read_buckets:
  "length (readingDirs (dir_read d f)) \<le> Suc (length (readingDirs f))"
  "hashingFiles (dir_read d f) = hashingFiles f"
  using length_set_add [of "vd_uuid d" "readingDirs f"]
  by (simp_all add: dir_read_def dirEnterReading_def dirExitInit_def reqSchedDirRead_def)

lemma scheduleFileHash_loop_bound:
  "length (hashingFiles f) \<le> b \<Longrightarrow> 2 \<le> b \<Longrightarrow>
   length (hashingFiles (scheduleFileHash_loop f)) \<le> b \<and>
   readingDirs (scheduleFileHash_loop f) = readingDirs f"
proof (induction f rule: scheduleFileHash_loop.induct)
  case (1 f)
  show ?case
  proof (cases "length (hashlessFiles f) > 0 \<and> length (hashingFiles f) < 2")
    case True
    let ?g = "calcFingerprint (hd (hashlessFiles f)) f"
    have "length (hashingFiles ?g) \<le> Suc (length (hashingFiles f))"
      by (rule calcFingerprint_buckets)
    with True "1.prems" have "length (hashingFiles ?g) \<le> b"
      by simp
    with True "1.IH" "1.prems"
    have "length (hashingFiles (scheduleFileHash_loop ?g)) \<le> b \<and>
          readingDirs (scheduleFileHash_loop ?g) = readingDirs ?g"
      by simp
    with True show ?thesis
      by (subst (1 2) scheduleFileHash_loop.simps) (simp add: calcFingerprint_buckets)
  next
    case False
    with "1.prems" show ?thesis
      by (subst (1 2) scheduleFileHash_loop.simps) auto
  qed
qed

lemma scheduleDirRead_loop_bound:
  assumes run: "scheduleDirRead_loop f = Some f'"
  shows "length (readingDirs f) \<le> b \<Longrightarrow> 6 \<le> b \<Longrightarrow>
         length (readingDirs f') \<le> b \<and> hashingFiles f' = hashingFiles f"
proof (induction rule: scheduleDirRead_loop.raw_induct [OF _ run])
  case (1 loop f f')
  show ?case
  proof (cases "length (initDirs f) > 0 \<and> length (readingDirs f) < 6")
    case True
    note guard = this
    show ?thesis
    proof (cases "uuidMap f (hd (initDirs f))")
      case None
      with guard "1.hyps" have "loop f = Some f'" by simp
      then show ?thesis using "1.IH" "1.prems" by blast
    next
      case (Some d)
      with guard "1.hyps" have l: "loop (dir_read d f) = Some f'" by simp
      have "length (readingDirs (dir_read d f)) \<le> Suc (length (readingDirs f))"
        by (rule dir_read_buckets)
      with guard "1.prems" have "length (readingDirs (dir_read d f)) \<le> b"
        by simp
      with "1.IH" [OF l] "1.prems"
      have "length (readingDirs f') \<le> b \<and> hashingFiles f' = hashingFiles (dir_read d f)"
        by simp
      then show ?thesis by (simp add: dir_read_buckets)
    qed
  next
    case False
    with "1.hyps" have "f' = f" by auto
    with "1.prems" show ?thesis by simp
  qed
qed

lemma runTick_bound:
  assumes "runTick f = Some f'"
  shows "length (readingDirs f') \<le> max 6 (length (readingDirs f)) \<and>
         length (hashingFiles f') \<le> max 2 (length (hashingFiles f))"
proof (cases "ticks f")
  case Nil
  with assms show ?thesis by (simp add: runTick_def)
next
  case (Cons t ts)
  show ?thesis
  proof (cases t)
    case Tick_scheduleFileHash
    let ?f1 = "f\<lparr>ticks := ts, fileHashScheduled := False\<rparr>"
    have "length (hashingFiles ?f1) \<le> max 2 (length (hashingFiles f))" by simp
    then have "length (hashingFiles (scheduleFileHash_loop ?f1)) \<le> max 2 (length (hashingFiles f)) \<and>
               readingDirs (scheduleFileHash_loop ?f1) = readingDirs ?f1"
      by (rule scheduleFileHash_loop_bound) simp
    moreover from assms Cons Tick_scheduleFileHash have "f' = scheduleFileHash_loop ?f1"
      by (simp add: runTick_def scheduleFileHash_def)
    ultimately show ?thesis by simp
  next
    case Tick_scheduleDirRead
    let ?f1 = "f\<lparr>ticks := ts, dirReadScheduled := False\<rparr>"
    from assms Cons Tick_scheduleDirRead
    have r: "scheduleDirRead (f\<lparr>ticks := ts\<rparr>) = Some f'"
      by (simp add: runTick_def)
    show ?thesis
    proof (cases "dirReadSettled ?f1")
      case True
      with r have "f' = ?f1\<lparr>emitted := emitted ?f1 @ [''dirReadSettled'']\<rparr>"
        by (simp add: scheduleDirRead_def Let_def)
      then show ?thesis by simp
    next
      case False
      with r have l: "scheduleDirRead_loop ?f1 = Some f'"
        by (simp add: scheduleDirRead_def Let_def)
      have "length (readingDirs ?f1) \<le> max 6 (length (readingDirs f))" by simp
      with l have "length (readingDirs f') \<le> max 6 (length (readingDirs f)) \<and>
                   hashingFiles f' = hashingFiles ?f1"
        by (rule scheduleDirRead_loop_bound) simp
      then show ?thesis by simp
    qed
  qed
qed

text \<open>
  The loop of \<open>scheduleDirRead\<close> returns when every uuid waiting in \<open>initDirs\<close> is
  indexed in \<open>uuidMap\<close> under its own uuid.
\<close>

theorem scheduleDirRead_loop_returns:
  assumes "\<forall>u\<in>set (initDirs f). \<exists>d. uuidMap f u = Some d \<and> vd_uuid d = u"
  shows "\<exists>f'. scheduleDirRead_loop f = Some f'"
  using assms
proof (induction "length (initDirs f)" arbitrary: f rule: less_induct)
  case less
  show ?case
  proof (cases "length (initDirs f) > 0 \<and> length (readingDirs f) < 6")
    case False
    then show ?thesis
      by (subst scheduleDirRead_loop.simps) auto
  next
    case True
    then obtain u us where us: "initDirs f = u # us"
      by (cases "initDirs f") auto
    with less.prems obtain d where d: "uuidMap f u = Some d" "vd_uuid d = u"
      by auto
    have init: "initDirs (dir_read d f) = removeAll u us"
      using d us by (simp add: dir_read_def forest_op_defs set_delete_def)
    have "length (removeAll u us) \<le> length us"
      by (rule length_removeAll_less_eq)
    then have "length (removeAll u us) < Suc (length us)"
      by (rule le_imp_less_Suc)
    then have smaller: "length (initDirs (dir_read d f)) < length (initDirs f)"
      by (simp add: init us)
    have map_same: "uuidMap (dir_read d f) = uuidMap f"
      by (simp add: dir_read_def forest_op_defs)
    have "\<forall>v\<in>set (initDirs (dir_read d f)). \<exists>d'. uuidMap (dir_read d f) v = Some d' \<and> vd_uuid d' = v"
      using less.prems us init map_same by auto
    with less.hyps [OF smaller] obtain f' where "scheduleDirRead_loop (dir_read d f) = Some f'"
      by blast
    with True us d show ?thesis
      by (subst scheduleDirRead_loop.simps) simp
  qed
qed

lemma pending_passes_bucket [simp]:
  "pending_passes t (f\<lparr>initDirs := a\<rparr>) = pending_passes t f"
  "pending_passes t (f\<lparr>pendingDirs := a\<rparr>) = pending_passes t f"
  "pending_passes t (f\<lparr>readingDirs := a\<rparr>) = pending_passes t f"
  "pending_passes t (f\<lparr>hashlessFiles := b\<rparr>) = pending_passes t f"
  "pending_passes t (f\<lparr>hashingFiles := b\<rparr>) = pending_passes t f"
  "pending_passes t (f\<lparr>hashFailedFiles := b\<rparr>) = pending_passes t f"
  "pending_passes t (f\<lparr>uuidMap := m\<rparr>) = pending_passes t f"
  "pending_passes t (f\<lparr>emitted := e\<rparr>) = pending_passes t f"
  by (simp_all add: pending_passes_def)

lemma debounced_bucket [simp]:
  "debounced (f\<lparr>initDirs := a\<rparr>) = debounced f"
  "debounced (f\<lparr>pendingDirs := a\<rparr>) = debounced f"
  "debounced (f\<lparr>readingDirs := a\<rparr>) = debounced f"
  "debounced (f\<lparr>hashlessFiles := b\<rparr>) = debounced f"
  "debounced (f\<lparr>hashingFiles := b\<rparr>) = debounced f"
  "debounced (f\<lparr>hashFailedFiles := b\<rparr>) = debounced f"
  "debounced (f\<lparr>uuidMap := m\<rparr>) = debounced f"
  "debounced (f\<lparr>emitted := e\<rparr>) = debounced f"
  by (simp_all add: debounced_def)

lemma debounced_reqSchedDirRead:
  "debounced f \<Longrightarrow> debounced (reqSchedDirRead f) \<and> dirReadScheduled (reqSchedDirRead f)"
  by (simp add: debounced_def pending_passes_def reqSchedDirRead_def)

lemma debounced_reqSchedFileHash:
  "debounced f \<Longrightarrow> debounced (reqSchedFileHash f) \<and> fileHashScheduled (reqSchedFileHash f)"
  by (simp add: debounced_def pending_passes_def reqSchedFileHash_def)

lemma debounced_dir_change:
  "debounced f \<Longrightarrow> debounced (dir_change ch f) \<and> dirReadScheduled (dir_change ch f)"
  by (cases ch)
    (simp_all add: dirEnterInit_def dirExitInit_def dirEnterPending_def dirExitPending_def
      dirEnterReading_def dirExitReading_def debounced_reqSchedDirRead)

lemma debounced_changes:
  "debounced f \<Longrightarrow> dirReadScheduled f \<Longrightarrow>
   debounced (fold dir_change chs f) \<and> dirReadScheduled (fold dir_change chs f)"
  by (induction chs arbitrary: f) (simp_all add: debounced_dir_change)

lemma debounced_requests:
  "debounced f \<Longrightarrow> fileHashScheduled f \<Longrightarrow>
   debounced ((reqSchedFileHash ^^ n) f) \<and> fileHashScheduled ((reqSchedFileHash ^^ n) f)"
  by (induction n) (simp_all add: debounced_reqSchedFileHash)

lemma debounced_dir_read: "debounced f \<Longrightarrow> debounced (dir_read d f)"
  by (simp add: dir_read_def dirEnterReading_def dirExitInit_def debounced_reqSchedDirRead)

lemma debounced_scheduleDirRead_loop:
  assumes run: "scheduleDirRead_loop f = Some f'"
  shows "debounced f \<Longrightarrow> debounced f'"
proof (induction rule: scheduleDirRead_loop.raw_induct [OF _ run])
  case (1 loop f f')
  show ?case
  proof (cases "length (initDirs f) > 0 \<and> length (readingDirs f) < 6")
    case True
    note guard = this
    show ?thesis
    proof (cases "uuidMap f (hd (initDirs f))")
      case None
      with guard "1.hyps" have "loop f = Some f'" by simp
      then show ?thesis using "1.IH" "1.prems" by blast
    next
      case (Some d)
      with guard "1.hyps" have "loop (dir_read d f) = Some f'" by simp
      moreover have "debounced (dir_read d f)"
        using "1.prems" by (rule debounced_dir_read)
      ultimately show ?thesis using "1.IH" by blast
    qed
  next
    case False
    with "1.hyps" have "f' = f" by auto
    with "1.prems" show ?thesis by simp
  qed
qed

lemma debounced_calcFingerprint: "debounced (calcFingerprint x f) = debounced f"
  by (simp add: calcFingerprint_def fileEnterHashing_def fileExitHashless_def)

lemma debounced_scheduleFileHash_loop: "debounced (scheduleFileHash_loop f) = debounced f"
proof (induction f rule: scheduleFileHash_loop.induct)
  case (1 f)
  show ?case
  proof (cases "length (hashlessFiles f) > 0 \<and> length (hashingFiles f) < 2")
    case True
    with "1.IH" show ?thesis
      by (subst scheduleFileHash_loop.simps) (simp add: debounced_calcFingerprint)
  next
    case False
    then show ?thesis
      by (subst scheduleFileHash_loop.simps) auto
  qed
qed

lemma debounced_runTick:
  assumes "runTick f = Some f'" "debounced f"
  shows "debounced f'"
proof (cases "ticks f")
  case Nil
  with assms show ?thesis by (simp add: runTick_def)
next
  case (Cons t ts)
  show ?thesis
  proof (cases t)
    case Tick_scheduleFileHash
    have "debounced (f\<lparr>ticks := ts, fileHashScheduled := False\<rparr>)"
      using assms(2) Cons Tick_scheduleFileHash
      by (auto simp add: debounced_def pending_passes_def split: if_splits)
    then have "debounced (scheduleFileHash (f\<lparr>ticks := ts\<rparr>))"
      by (simp add: scheduleFileHash_def debounced_scheduleFileHash_loop)
    with assms(1) Cons Tick_scheduleFileHash show ?thesis
      by (simp add: runTick_def)
  next
    case Tick_scheduleDirRead
    let ?f1 = "f\<lparr>ticks := ts, dirReadScheduled := False\<rparr>"
    have f1: "debounced ?f1"
      using assms(2) Cons Tick_scheduleDirRead
      by (auto simp add: debounced_def pending_passes_def split: if_splits)
    from assms(1) Cons Tick_scheduleDirRead
    have r: "scheduleDirRead (f\<lparr>ticks := ts\<rparr>) = Some f'"
      by (simp add: runTick_def)
    show ?thesis
    proof (cases "dirReadSettled ?f1")
      case True
      with r have "f' = ?f1\<lparr>emitted := emitted ?f1 @ [''dirReadSettled'']\<rparr>"
        by (simp add: scheduleDirRead_def Let_def)
      with f1 show ?thesis by simp
    next
      case False
      with r have "scheduleDirRead_loop ?f1 = Some f'"
        by (simp add: scheduleDirRead_def Let_def)
      then show ?thesis using f1 by (rule debounced_scheduleDirRead_loop)
    qed
  qed
qed

lemma debounced_file_change: "debounced (file_change fch f) = debounced f"
  by (cases fch)
    (simp_all add: fileEnterHashless_def fileExitHashless_def fileEnterHashing_def
      fileExitHashing_def fileEnterHashFailed_def fileExitHashFailed_def)

lemma debounced_createRoot:
  "createRoot uuid m x f = (f', calls, r) \<Longrightarrow> debounced f' = debounced f"
  by (cases m; cases x)
    (auto simp add: createRoot_def Directory_new_def indexDirectory_def Let_def debounced_def
      pending_passes_def)

lemma reachable_debounced: "reachable f \<Longrightarrow> debounced f"
proof (induction rule: reachable.induct)
  case (start froot)
  show ?case by (simp add: debounced_def pending_passes_def Forest_constructor_def)
next
  case (dirChange f ch)
  then show ?case by (simp add: debounced_dir_change)
next
  case (fileChange f fch)
  then show ?case by (simp add: debounced_file_change)
next
  case (reqFileHash f)
  then show ?case by (simp add: debounced_reqSchedFileHash)
next
  case (reqDirRead f)
  then show ?case by (simp add: debounced_reqSchedDirRead)
next
  case (root f uuid m x f' calls r)
  then show ?case by (simp add: debounced_createRoot)
next
  case (tick f f')
  then show ?case by (simp add: debounced_runTick)
qed (simp_all add: indexDirectory_def unindexDirectory_def)

lemma reachable_dir_changes: "reachable f \<Longrightarrow> reachable (fold dir_change chs f)"
  by (induction chs arbitrary: f) (simp_all add: reachable.dirChange)

lemma reachable_file_changes: "reachable f \<Longrightarrow> reachable (fold file_change fchs f)"
  by (induction fchs arbitrary: f) (simp_all add: reachable.fileChange)

lemma file_change_requests_nothing:
  "ticks (file_change fch f) = ticks f \<and>
   fileHashScheduled (file_change fch f) = fileHashScheduled f \<and>
   dirReadScheduled (file_change fch f) = dirReadScheduled f"
  by (cases fch)
    (simp_all add: fileEnterHashless_def fileExitHashless_def fileEnterHashing_def
      fileExitHashing_def fileEnterHashFailed_def fileExitHashFailed_def)

lemma file_changes_request_nothing:
  "ticks (fold file_change fchs f) = ticks f \<and>
   fileHashScheduled (fold file_change fchs f) = fileHashScheduled f \<and>
   dirReadScheduled (fold file_change fchs f) = dirReadScheduled f"
  by (induction fchs arbitrary: f) (simp_all add: file_change_requests_nothing)

text \<open>
  Claim C5, as amended. A pass of the directory scheduler adds to the reading bucket only
  while it holds fewer than 6 directories, and a pass of the hash scheduler adds to the
  hashing bucket only while it holds fewer than 2 files: whatever waits in the other
  buckets, a pass leaves in each of the two buckets at most the ceiling, or what the bucket
  held before the pass if that was more.
\<close>

theorem pass_stays_within_ceilings:
  assumes "runTick f = Some f'"
  shows "length (readingDirs f') \<le> max 6 (length (readingDirs f)) \<and>
         length (hashingFiles f') \<le> max 2 (length (hashingFiles f))"
  using assms by (rule runTick_bound)

text \<open>
  Claim C5 as stated fails: \<open>dirEnterReading\<close> and \<open>fileEnterHashing\<close> add to their bucket
  without looking at its size. Seven directories that enter the reading bucket and three
  files that enter the hashing bucket on a new forest are all in it.
\<close>

theorem buckets_are_not_bounded:
  "reachable ex_crowd \<and> length (readingDirs ex_crowd) = 7 \<and> length (hashingFiles ex_crowd) = 3 \<and>
   \<not> (length (readingDirs ex_crowd) \<le> 6 \<and> length (hashingFiles ex_crowd) \<le> 2)"
proof -
  have "reachable ex_crowd"
    unfolding ex_crowd_def
    by (intro reachable_file_changes reachable_dir_changes reachable.start)
  moreover have "length (readingDirs ex_crowd) = 7 \<and> length (hashingFiles ex_crowd) = 3"
    by (simp add: ex_crowd_def ex_dirs_def forest_op_defs Forest_constructor_def set_add_def)
  ultimately show ?thesis by simp
qed

text \<open>
  Claim C6. On a forest, any number of membership changes of the three file buckets in a
  turn queue no pass of the hash scheduler and leave its flag as it was: none of the file
  bucket operations calls \<open>reqSchedFileHash\<close>. After five files have entered the hashless
  bucket of a new forest the tick queue is empty, so the next turn starts no hashing; the
  same burst of directories entering the init bucket queues one pass of the directory
  scheduler.
\<close>

theorem file_bucket_changes_queue_no_pass:
  "pending_passes Tick_scheduleFileHash (fold file_change fchs f) = pending_passes Tick_scheduleFileHash f
   \<and> fileHashScheduled (fold file_change fchs f) = fileHashScheduled f
   \<and> pending_passes Tick_scheduleFileHash (fold file_change fchs (Forest_constructor froot)) = 0
   \<and> ticks (fold file_change (map EnterHashless [1, 2, 3, 4, 5]) (Forest_constructor ''/data'')) = []
   \<and> runTick (fold file_change (map EnterHashless [1, 2, 3, 4, 5]) (Forest_constructor ''/data''))
       = Some (fold file_change (map EnterHashless [1, 2, 3, 4, 5]) (Forest_constructor ''/data''))
   \<and> hashlessFiles (fold file_change (map EnterHashless [1, 2, 3, 4, 5]) (Forest_constructor ''/data''))
       = [1, 2, 3, 4, 5]
   \<and> hashingFiles (fold file_change (map EnterHashless [1, 2, 3, 4, 5]) (Forest_constructor ''/data''))
       = []
   \<and> ticks (fold dir_change (map EnterInit ex_dirs) (Forest_constructor ''/data''))
       = [Tick_scheduleDirRead]"
proof -
  let ?g = "fold file_change (map EnterHashless [1, 2, 3, 4, 5]) (Forest_constructor ''/data'')"
  have t: "ticks (fold file_change fchs g) = ticks g" for fchs g
    using file_changes_request_nothing [of fchs g] by simp
  have n: "ticks (Forest_constructor froot) = []" for froot
    by (simp add: Forest_constructor_def)
  have c1: "pending_passes Tick_scheduleFileHash (fold file_change fchs f)
              = pending_passes Tick_scheduleFileHash f"
    by (simp only: pending_passes_def t)
  have c2: "fileHashScheduled (fold file_change fchs f) = fileHashScheduled f"
    using file_changes_request_nothing [of fchs f] by simp
  have c3: "pending_passes Tick_scheduleFileHash (fold file_change fchs (Forest_constructor froot)) = 0"
    by (simp only: pending_passes_def t n count_list.simps)
  have c4: "ticks ?g = []"
    by (simp only: t n)
  have c5: "runTick ?g = Some ?g"
    unfolding runTick_def c4 by simp
  have c6: "hashlessFiles ?g = [1, 2, 3, 4, 5]"
    by (simp add: fileEnterHashless_def Forest_constructor_def set_add_def)
  have c7: "hashingFiles ?g = []"
    by (simp add: fileEnterHashless_def Forest_constructor_def set_add_def)
  have c8: "ticks (fold dir_change (map EnterInit ex_dirs) (Forest_constructor ''/data''))
             = [Tick_scheduleDirRead]"
    by (simp add: ex_dirs_def forest_op_defs Forest_constructor_def set_add_def)
  show ?thesis
    by (intro conjI c1 c2 c3 c4 c5 c6 c7 c8)
qed

text \<open>
  Calls that request a pass are debounced: after any number of membership changes of the
  directory buckets, at least one, in a turn (no callback of the tick queue runs in
  between), exactly one pass of the directory scheduler waits on the tick queue, and after
  any number of calls of \<open>reqSchedFileHash\<close>, at least one, exactly one pass of the hash
  scheduler.
\<close>

theorem requests_are_debounced:
  assumes "reachable f" and "chs \<noteq> []" and "0 < n"
  shows "pending_passes Tick_scheduleDirRead (fold dir_change chs f) = 1 \<and>
         pending_passes Tick_scheduleFileHash ((reqSchedFileHash ^^ n) f) = 1"
proof
  from assms(1) have deb: "debounced f" by (rule reachable_debounced)
  from assms(2) obtain ch chs' where chs: "chs = ch # chs'" by (cases chs) auto
  have "debounced (dir_change ch f) \<and> dirReadScheduled (dir_change ch f)"
    using deb by (rule debounced_dir_change)
  then have "debounced (fold dir_change chs f) \<and> dirReadScheduled (fold dir_change chs f)"
    using debounced_changes [of "dir_change ch f" chs'] chs by simp
  then show "pending_passes Tick_scheduleDirRead (fold dir_change chs f) = 1"
    by (simp add: debounced_def)
next
  from assms(1) have deb: "debounced f" by (rule reachable_debounced)
  from assms(3) obtain m where n: "n = Suc m" by (cases n) auto
  have "debounced (reqSchedFileHash f) \<and> fileHashScheduled (reqSchedFileHash f)"
    using deb by (rule debounced_reqSchedFileHash)
  then have "debounced ((reqSchedFileHash ^^ m) (reqSchedFileHash f)) \<and>
             fileHashScheduled ((reqSchedFileHash ^^ m) (reqSchedFileHash f))"
    using debounced_requests [of "reqSchedFileHash f" m] by simp
  then show "pending_passes Tick_scheduleFileHash ((reqSchedFileHash ^^ n) f) = 1"
    by (simp add: n funpow_swap1 debounced_def)
qed

lemma ex_burst_passes:
  "\<exists>f1 f2. runTick ex_burst = Some f1 \<and> runTick f1 = Some f2 \<and>
     readingDirs f1 = [''d1'', ''d2'', ''d3'', ''d4'', ''d5'', ''d6''] \<and> hashingFiles f1 = [] \<and>
     readingDirs f2 = [''d1'', ''d2'', ''d3'', ''d4'', ''d5'', ''d6''] \<and>
     initDirs f2 = [''d7'', ''d8''] \<and> hashingFiles f2 = [1, 2] \<and> hashlessFiles f2 = [3, 4, 5]"
  unfolding ex_burst_def ex_dirs_def
  by (simp add: forest_op_defs Forest_constructor_def set_add_def set_delete_def runTick_def
      scheduleDirRead_def dirReadSettled_def dir_read_def scheduleDirRead_loop.simps
      scheduleFileHash_def calcFingerprint_def scheduleFileHash_loop.simps)

theorem pass_stays_within_ceilings_witness:
  "\<exists>f1 f2. runTick ex_burst = Some f1 \<and> runTick f1 = Some f2 \<and>
     length (initDirs ex_burst) = 8 \<and> length (hashlessFiles ex_burst) = 5 \<and>
     length (readingDirs f1) = 6 \<and> length (hashingFiles f1) = 0 \<and>
     length (readingDirs f2) = 6 \<and> length (hashingFiles f2) = 2 \<and>
     length (readingDirs f2) \<le> max 6 (length (readingDirs f1)) \<and>
     length (hashingFiles f2) \<le> max 2 (length (hashingFiles f1))"
proof -
  from ex_burst_passes obtain f1 f2 where
    t: "runTick ex_burst = Some f1" "runTick f1 = Some f2" and
    v: "readingDirs f1 = [''d1'', ''d2'', ''d3'', ''d4'', ''d5'', ''d6'']" "hashingFiles f1 = []"
       "readingDirs f2 = [''d1'', ''d2'', ''d3'', ''d4'', ''d5'', ''d6'']"
       "hashingFiles f2 = [1, 2]"
    by blast
  have b: "length (initDirs ex_burst) = 8 \<and> length (hashlessFiles ex_burst) = 5"
    by (simp add: ex_burst_def ex_dirs_def forest_op_defs Forest_constructor_def set_add_def)
  from pass_stays_within_ceilings [OF t(2)] t v b show ?thesis
    by simp
qed

theorem requests_are_debounced_witness:
  "reachable (Forest_constructor ''/data'') \<and> map EnterInit ex_dirs \<noteq> [] \<and> (0::nat) < 5 \<and>
   pending_passes Tick_scheduleDirRead
     (fold dir_change (map EnterInit ex_dirs) (Forest_constructor ''/data'')) = 1 \<and>
   pending_passes Tick_scheduleFileHash ((reqSchedFileHash ^^ 5) (Forest_constructor ''/data'')) = 1 \<and>
   ticks (fold dir_change (map EnterInit ex_dirs) (Forest_constructor ''/data'')) = [Tick_scheduleDirRead]"
proof -
  have r: "reachable (Forest_constructor ''/data'')"
    by (rule reachable.start)
  have ne: "map EnterInit ex_dirs \<noteq> []"
    by (simp add: ex_dirs_def)
  have one: "pending_passes Tick_scheduleDirRead
       (fold dir_change (map EnterInit ex_dirs) (Forest_constructor ''/data'')) = 1 \<and>
     pending_passes Tick_scheduleFileHash ((reqSchedFileHash ^^ 5) (Forest_constructor ''/data'')) = 1"
    using requests_are_debounced [OF r ne, of 5] by simp
  have "ticks (fold dir_change (map EnterInit ex_dirs) (Forest_constructor ''/data''))
      = [Tick_scheduleDirRead]"
    by (simp add: ex_dirs_def forest_op_defs Forest_constructor_def set_add_def)
  with r ne one show ?thesis
    by simp
qed


theorem scheduleDirRead_loop_returns_witness:
  "(\<exists>f'. scheduleDirRead_loop ex_burst = Some f') \<and>
   initDirs ex_burst = [''d1'', ''d2'', ''d3'', ''d4'', ''d5'', ''d6'', ''d7'', ''d8''] \<and>
   map (map_option vd_uuid \<circ> uuidMap ex_burst) (initDirs ex_burst) = map Some (initDirs ex_burst)"
proof -
  have v: "initDirs ex_burst = [''d1'', ''d2'', ''d3'', ''d4'', ''d5'', ''d6'', ''d7'', ''d8''] \<and>
     map (map_option vd_uuid \<circ> uuidMap ex_burst) (initDirs ex_burst) = map Some (initDirs ex_burst)"
    unfolding ex_burst_def ex_dirs_def
    by (simp add: forest_op_defs Forest_constructor_def set_add_def)
  have "\<forall>u\<in>set (initDirs ex_burst). \<exists>d. uuidMap ex_burst u = Some d \<and> vd_uuid d = u"
    unfolding ex_burst_def ex_dirs_def
    by (simp add: forest_op_defs Forest_constructor_def set_add_def)
  from scheduleDirRead_loop_returns [OF this] v show ?thesis
    by simp
qed

section \<open>Properties of the Directory machine\<close>

lemmas dir_index_defs =
  indexPendingDir_def unindexPendingDir_def indexMakingDir_def unindexMakingDir_def
  indexConflictDir_def unindexConflictDir_def indexReadingDir_def unindexReadingDir_def
  indexReadDir_def unindexReadDir_def indexFailedDir_def unindexFailedDir_def
  indexFinishedDir_def unindexFinishedDir_def

lemmas machine_defs =
  File_constructor_def File_setState_def File_State_setState_def cpFile_done_def
  Working_callback_def File_getPolicy_def File_destroy_def Read_next_def Read_new_def
  Directory_constructor_def Directory_constructor3_def Pending_new_def Making_new_def
  Conflict_new_def Reading_new_def Failed_new_def Finished_new_def Dir_State_setState_def
  Directory_setState_def Directory_getPolicy_def policy_slot_def mkdirc_done_def readdir_done_def
  parent_of_def detach_at_def truthy_def state_of_def children_of_def

lemma failed_file_ignores_input:
  "f_live f = File_Failed \<Longrightarrow> file_input inp par f c = (c, f, None)"
  by (cases inp) (simp_all add: cpFile_done_def)

lemma failed_file_node_ignores_input:
  "f_live f = File_Failed \<Longrightarrow> deliver inp p par (FileNode f) c = (c, FileNode f, None)"
  by (cases p) (simp_all add: failed_file_ignores_input)

lemma Read_dir_ignores_input:
  "d_state d = Dir_Read \<Longrightarrow> dir_input inp par d cs c = (c, DirNode d cs, None)"
  by (cases inp) (simp_all add: mkdirc_done_def readdir_done_def)

lemma Read_next_keeps_child:
  assumes "n \<in> set cs"
  shows "\<exists>c' d' cs'. Read_next d cs c = (c', DirNode d' cs', None) \<and> d_state d' = d_state d \<and>
           n \<in> set cs'"
proof (cases "d_fstats d")
  case (Cons fstat fs)
  with assms show ?thesis
    by (simp add: Read_next_def split: prod.splits)
next
  case Nil
  note no_files = this
  show ?thesis
  proof (cases "d_dstats d")
    case (Cons dstat ds)
    with no_files assms show ?thesis
      by (simp add: Read_next_def split: prod.splits)
  next
    case Nil
    from assms have "cs \<noteq> []" by auto
    with no_files Nil assms show ?thesis
      by (simp add: Read_next_def)
  qed
qed

lemma in_set_update_other:
  assumes "x \<in> set xs" "xs ! i \<noteq> x"
  shows "x \<in> set (xs[i := y])"
proof -
  from assms(1) obtain j where j: "j < length xs" "xs ! j = x"
    by (auto simp add: in_set_conv_nth)
  with assms(2) have "j \<noteq> i" by auto
  with j have "(xs[i := y]) ! j = x" "j < length (xs[i := y])" by simp_all
  then show ?thesis by (metis nth_mem)
qed

lemma in_set_detach_other:
  assumes "x \<in> set xs" "i < length xs" "xs ! i \<noteq> x"
  shows "x \<in> set (detach_at i (xs[i := y]))"
proof -
  have "set xs = set (take i xs @ xs ! i # drop (Suc i) xs)"
    by (rule arg_cong [where f = set]) (rule id_take_nth_drop [OF assms(2)])
  then have "set xs = set (take i xs) \<union> {xs ! i} \<union> set (drop (Suc i) xs)"
    by simp
  with assms(1,3) have "x \<in> set (take i xs) \<union> set (drop (Suc i) xs)"
    by auto
  then show ?thesis
    by (simp add: detach_at_def)
qed

lemma deliver_keeps_failed_child:
  assumes "d_state d = Dir_Read" "FileNode f \<in> set cs" "f_live f = File_Failed"
  shows "\<exists>c' d' cs'. deliver inp p par (DirNode d cs) c = (c', DirNode d' cs', None) \<and>
           d_state d' = Dir_Read \<and> FileNode f \<in> set cs'"
proof (cases p)
  case Nil
  with assms show ?thesis by (simp add: Read_dir_ignores_input)
next
  case (Cons i q)
  show ?thesis
  proof (cases "i < length cs")
    case False
    with Cons assms show ?thesis by simp
  next
    case True
    obtain c1 n1 s where r: "deliver inp q (parent_of d) (cs ! i) c = (c1, n1, s)"
      by (cases "deliver inp q (parent_of d) (cs ! i) c") auto
    show ?thesis
    proof (cases "cs ! i = FileNode f")
      case True
      with r assms(3) have "c1 = c" "n1 = FileNode f" "s = None"
        by (simp_all add: failed_file_node_ignores_input)
      with Cons \<open>i < length cs\<close> r True assms show ?thesis
        by (simp add: set_update_memI)
    next
      case False
      then have upd: "FileNode f \<in> set (cs[i := n1])"
        using assms(2) by (simp add: in_set_update_other)
      have det: "FileNode f \<in> set (detach_at i (cs[i := n1]))"
        using assms(2) True False by (simp add: in_set_detach_other)
      show ?thesis
      proof (cases s)
        case None
        with Cons True r upd assms(1) show ?thesis by simp
      next
        case (Some g)
        show ?thesis
        proof (cases g)
          case (SigError e)
          from Read_next_keeps_child [OF upd, of d c1] assms(1)
          show ?thesis using Cons True r Some SigError by simp
        next
          case SigFinish
          from Read_next_keeps_child [OF det, of d "Node_destroy n1 c1"] assms(1)
          show ?thesis using Cons True r Some SigFinish by simp
        qed
      qed
    qed
  qed
qed

lemma run_keeps_failed_child:
  assumes "d_state d = Dir_Read" "FileNode f \<in> set cs" "f_live f = File_Failed"
  shows "\<exists>c' d' cs'. run evs par (DirNode d cs) c = (c', DirNode d' cs') \<and>
           d_state d' = Dir_Read \<and> FileNode f \<in> set cs'"
  using assms
proof (induction evs arbitrary: d cs c)
  case Nil
  then show ?case by simp
next
  case (Cons ev evs)
  obtain p inp where ev: "ev = (p, inp)" by (cases ev) auto
  from deliver_keeps_failed_child [OF Cons.prems, of inp p par c]
  obtain c1 d1 cs1 where
    s: "deliver inp p par (DirNode d cs) c = (c1, DirNode d1 cs1, None)"
       "d_state d1 = Dir_Read" "FileNode f \<in> set cs1"
    by blast
  from Cons.IH [OF s(2) s(3) Cons.prems(3), of c1] s(1) ev show ?case
    by simp
qed

text \<open>
  Claim C10. A directory is in Read and the copy of one of its File children fails with an
  error that is not a conflict: the child enters Failed and emits \<open>error\<close>, and the
  listener only calls \<open>next()\<close>. Whatever inputs follow (scheduling, and callbacks of the
  copy, create and list collaborators, anywhere in the tree), the failed child stays in the
  children list and the directory stays in Read: it never becomes Finished, with the
  queues drained or not.
\<close>

theorem errored_File_child_blocks_Finished:
  assumes "d_state d = Dir_Read" and "i < length cs" and "cs ! i = FileNode f"
    and "f_live f = File_Working pol" and "e_xcode e \<noteq> Some ''ECONFLICT''"
  shows "\<exists>c' d' cs'.
           run (([i], CpFileDone (Some e)) # evs) par (DirNode d cs) c = (c', DirNode d' cs') \<and>
           FileNode (f\<lparr>f_live := File_Failed\<rparr>) \<in> set cs' \<and>
           d_state d' = Dir_Read"
proof -
  let ?f1 = "f\<lparr>f_live := File_Failed\<rparr>"
  let ?c1 = "call (Emit (f_id f) (SigError e)) (indexFailedFile (f_id f) (unindexWorkingFile (f_id f) c))"
  have child: "deliver (CpFileDone (Some e)) [] (parent_of d) (cs ! i) c = (?c1, FileNode ?f1, Some (SigError e))"
    using assms(3,4,5)
    by (simp add: cpFile_done_def File_State_setState_def Working_callback_def)
  have mem: "FileNode ?f1 \<in> set (cs[i := FileNode ?f1])"
    using assms(2) by (simp add: set_update_memI)
  from Read_next_keeps_child [OF mem, of d ?c1] assms(1)
  obtain c2 d2 cs2 where
    nx: "Read_next d (cs[i := FileNode ?f1]) ?c1 = (c2, DirNode d2 cs2, None)"
        "d_state d2 = Dir_Read" "FileNode ?f1 \<in> set cs2"
    by auto
  have first: "deliver (CpFileDone (Some e)) [i] par (DirNode d cs) c = (c2, DirNode d2 cs2, None)"
    using assms(2) child nx(1) by simp
  have "f_live ?f1 = File_Failed" by simp
  from run_keeps_failed_child [OF nx(2) nx(3) this, of evs par c2]
  obtain c' d' cs' where
    fin: "run evs par (DirNode d2 cs2) c2 = (c', DirNode d' cs')" "d_state d' = Dir_Read"
         "FileNode ?f1 \<in> set cs'"
    by blast
  from first fin show ?thesis
    by simp
qed


theorem errored_File_child_blocks_Finished_witness:
  "d_state ex_read_dir = Dir_Read \<and> (0::nat) < length [FileNode ex_working] \<and>
   [FileNode ex_working] ! 0 = FileNode ex_working \<and>
   f_live ex_working = File_Working (Some ''rename'') \<and> e_xcode ex_eio \<noteq> Some ''ECONFLICT'' \<and>
   (case run [([0], CpFileDone (Some ex_eio)), ([1], Schedule), ([1], CpFileDone None)]
           ex_parent (DirNode ex_read_dir [FileNode ex_working]) ex_ctx of
      (c', n') \<Rightarrow>
        state_of n' = Some Dir_Read \<and> queues_of n' = ([], []) \<and>
        children_of n' = [FileNode (ex_working\<lparr>f_live := File_Failed\<rparr>)] \<and>
        finishedFile c' = {2} \<and> failedFile c' = {1})"
  using errored_File_child_blocks_Finished [where d = ex_read_dir and i = 0
      and cs = "[FileNode ex_working]" and f = ex_working and pol = "Some ''rename''"
      and e = ex_eio and par = ex_parent and c = ex_ctx
      and evs = "[([1], Schedule), ([1], CpFileDone None)]"]
  by (simp add: ex_read_dir_def ex_working_def ex_eio_def ex_parent_def ex_ctx_def emptyCtx_def
      ex_file_entry_def queues_of_def machine_defs file_index_defs dir_index_defs)

text \<open>
  Claim C2. A directory is constructed with a destination id and a listing of one file, so
  that it is in Read with one File child. When the copy of the child fails, the listener
  for \<open>error\<close> calls \<open>next()\<close> without destroying the child: the child stays in the
  children list and the directory stays in Read with both queues empty. When the copy
  succeeds, the listener for \<open>finish\<close> destroys and detaches the child and the directory
  becomes Finished.
\<close>

theorem errored_child_is_kept:
  "(case Directory_constructor emptyCtx (SrcUUID ''src-dir'')
           (Some (''dst-dir'', [ex_file_entry ''file-1'' ''a.txt''])) of
      (c0, n0, s0) \<Rightarrow>
        (case run [([0], Schedule), ([0], CpFileDone (Some ex_eio))] ex_parent n0 c0 of
           (c1, n1) \<Rightarrow>
             state_of n1 = Some Dir_Read \<and> queues_of n1 = ([], []) \<and>
             map node_id (children_of n1) = [1] \<and> 1 \<in> failedFile c1) \<and>
        (case run [([0], Schedule), ([0], CpFileDone None)] ex_parent n0 c0 of
           (c2, n2) \<Rightarrow>
             state_of n2 = Some Dir_Finished \<and> queues_of n2 = ([], []) \<and> children_of n2 = []))"
  by (simp add: ex_eio_def ex_parent_def emptyCtx_def ex_file_entry_def queues_of_def node_id_def
      machine_defs file_index_defs dir_index_defs)

text \<open>
  What \<open>Read.next\<close> does, by the state of the queues: a file entry first; a directory
  entry when no file entry is left; Finished when both queues and the children list are
  empty; nothing otherwise.
\<close>

theorem next_takes_files_first:
  "(d_fstats d = fstat # fs \<longrightarrow>
      (case Read_next d cs c of
         (c', n', s) \<Rightarrow>
           s = None \<and> queues_of n' = (fs, d_dstats d) \<and> state_of n' = Some (d_state d) \<and>
           (\<exists>f. children_of n' = cs @ [FileNode f] \<and> f_srcUUID f = x_uuid fstat \<and>
                f_srcName f = x_name fstat \<and> f_live f = File_Pending \<and> f_id f \<in> pendingFile c')))
   \<and> (d_fstats d = [] \<and> d_dstats d = dstat # ds \<longrightarrow>
      (case Read_next d cs c of
         (c', n', s) \<Rightarrow>
           s = None \<and> queues_of n' = ([], ds) \<and> state_of n' = Some (d_state d) \<and>
           (\<exists>k. children_of n' = cs @ [k] \<and> state_of k = Some Dir_Pending \<and> children_of k = [] \<and>
                node_id k \<in> pendingDir c')))
   \<and> (d_fstats d = [] \<and> d_dstats d = [] \<and> cs = [] \<longrightarrow>
      (case Read_next d cs c of
         (c', n', s) \<Rightarrow> s = Some SigFinish \<and> state_of n' = Some Dir_Finished \<and> children_of n' = []))
   \<and> (d_fstats d = [] \<and> d_dstats d = [] \<and> cs \<noteq> [] \<longrightarrow> Read_next d cs c = (c, DirNode d cs, None))"
  by (simp add: Read_next_def File_constructor_def Directory_constructor3_def Pending_new_def
      Finished_new_def queues_of_def state_of_def children_of_def node_id_def indexPendingFile_def
      indexPendingDir_def Let_def)

theorem next_takes_files_first_witness:
  "(case Read_next (ex_read_dir\<lparr>d_dstats := [ex_sub_entry]\<rparr>) [] (emptyCtx\<lparr>nextId := 1\<rparr>) of
      (c', n', s) \<Rightarrow> queues_of n' = ([], [ex_sub_entry]) \<and> map node_id (children_of n') = [1])
   \<and> (case Read_next (ex_read_dir\<lparr>d_fstats := [], d_dstats := [ex_sub_entry]\<rparr>) [] (emptyCtx\<lparr>nextId := 1\<rparr>) of
      (c', n', s) \<Rightarrow> queues_of n' = ([], []) \<and> map state_of (children_of n') = [Some Dir_Pending])
   \<and> (case Read_next (ex_read_dir\<lparr>d_fstats := []\<rparr>) [] emptyCtx of
      (c', n', s) \<Rightarrow> state_of n' = Some Dir_Finished)
   \<and> Read_next (ex_read_dir\<lparr>d_fstats := []\<rparr>) [FileNode ex_working] emptyCtx
       = (emptyCtx, DirNode (ex_read_dir\<lparr>d_fstats := []\<rparr>) [FileNode ex_working], None)"
  using next_takes_files_first [where d = "ex_read_dir\<lparr>d_dstats := [ex_sub_entry]\<rparr>"
      and fstat = "ex_file_entry ''file-2'' ''b.txt''" and fs = "[]" and cs = "[]"
      and c = "emptyCtx\<lparr>nextId := 1\<rparr>"]
    next_takes_files_first [where d = "ex_read_dir\<lparr>d_fstats := [], d_dstats := [ex_sub_entry]\<rparr>"
      and dstat = ex_sub_entry and ds = "[]" and cs = "[]" and c = "emptyCtx\<lparr>nextId := 1\<rparr>"]
    next_takes_files_first [where d = "ex_read_dir\<lparr>d_fstats := []\<rparr>" and cs = "[]" and c = emptyCtx]
    next_takes_files_first [where d = "ex_read_dir\<lparr>d_fstats := []\<rparr>" and cs = "[FileNode ex_working]"
      and c = emptyCtx]
  by (simp add: ex_read_dir_def ex_sub_entry_def ex_file_entry_def ex_working_def emptyCtx_def
      Read_next_def File_constructor_def Directory_constructor3_def Pending_new_def Finished_new_def
      queues_of_def state_of_def children_of_def node_id_def indexPendingFile_def
      indexPendingDir_def unindexReadDir_def indexFinishedDir_def call_def Let_def)

text \<open>
  Scenario A of the specification: a directory whose listing holds three files, with no
  conflict. The directory goes from Pending through Making, Reading and Read; the files are
  copied one after the other, each child destroyed and detached when it finishes; the
  directory becomes Finished after the third.
\<close>

theorem a_directory_of_three_files_is_copied_in_order:
  "(case Directory_constructor emptyCtx (SrcUUID ''src-sub'') None of
      (c0, n0, s0) \<Rightarrow>
        state_of n0 = Some Dir_Pending \<and>
        (case run [([], Schedule)] ex_parent n0 c0 of
           (c1, n1) \<Rightarrow>
             state_of n1 = Some (Dir_Making (None, None)) \<and>
             (case run [([], MkdircDone (Inr ex_made))] ex_parent n1 c1 of
                (c2, n2) \<Rightarrow>
                  state_of n2 = Some Dir_Reading \<and> dst_of n2 = Some ''dst-sub'' \<and>
                  (case run [([], ReaddirDone (Inr ex_listing))] ex_parent n2 c2 of
                     (c3, n3) \<Rightarrow>
                       state_of n3 = Some Dir_Read \<and> map node_id (children_of n3) = [1] \<and>
                       (case run [([0], Schedule), ([0], CpFileDone None)] ex_parent n3 c3 of
                          (c4, n4) \<Rightarrow>
                            state_of n4 = Some Dir_Read \<and> map node_id (children_of n4) = [2] \<and>
                            (case run [([0], Schedule), ([0], CpFileDone None)] ex_parent n4 c4 of
                               (c5, n5) \<Rightarrow>
                                 state_of n5 = Some Dir_Read \<and>
                                 map node_id (children_of n5) = [3] \<and>
                                 (case run [([0], Schedule), ([0], CpFileDone None)] ex_parent n5 c5 of
                                    (c6, n6) \<Rightarrow>
                                      state_of n6 = Some Dir_Finished \<and> children_of n6 = [] \<and>
                                      dst_of n6 = Some ''dst-sub'' \<and>
                                      trace c6 =
                                        [Mkdirc 0 (SrcUUID ''src-sub'') (Some ''dst-dir'') (None, None),
                                         Readdir 0 (SrcUUID ''src-sub''),
                                         CpFile 1 (SrcUUID ''src-sub'') ''file-1'' ''a.txt'' (Some ''dst-sub'') None,
                                         Emit 1 SigFinish,
                                         CpFile 2 (SrcUUID ''src-sub'') ''file-2'' ''b.txt'' (Some ''dst-sub'') None,
                                         Emit 2 SigFinish,
                                         CpFile 3 (SrcUUID ''src-sub'') ''file-3'' ''c.txt'' (Some ''dst-sub'') None,
                                         Emit 3 SigFinish,
                                         Emit 0 SigFinish])))))))"
  by (simp add: ex_listing_def ex_file_entry_def ex_parent_def ex_made_def emptyCtx_def node_id_def
      dst_of_def machine_defs file_index_defs dir_index_defs call_def Let_def)

lemma serial_children_conv: "serial_children cs = (\<forall>n\<in>set cs. serial n)"
  by (induction cs) auto

lemma terminal_serial: "terminal n \<Longrightarrow> serial n"
  by (cases n) auto

lemma terminal_ignores_input:
  assumes "terminal n"
  shows "deliver inp p par n c = (c, n, None)"
proof (cases n)
  case (FileNode f)
  with assms show ?thesis by (simp add: failed_file_node_ignores_input)
next
  case (DirNode d cs)
  with assms have st: "d_state d = Dir_Failed" "cs = []" by simp_all
  show ?thesis
  proof (cases p)
    case Nil
    with DirNode st show ?thesis
      by (cases inp) (simp_all add: mkdirc_done_def readdir_done_def)
  next
    case (Cons i q)
    with DirNode st show ?thesis by simp
  qed
qed

lemma Read_next_signal: "Read_next d cs c = (c', n', s) \<Longrightarrow> s \<noteq> Some (SigError e)"
  by (auto simp add: Read_next_def Finished_new_def split: list.splits prod.splits if_splits)

lemma Read_next_serial:
  assumes "list_all terminal cs" "d_state d = Dir_Read" "Read_next d cs c = (c', n', s)"
  shows "serial n'"
proof -
  from assms(1) have ser: "\<forall>n\<in>set cs. serial n"
    by (auto simp add: list_all_iff terminal_serial)
  from assms(1) have bl: "list_all terminal (butlast cs)"
    by (auto simp add: list_all_iff dest: in_set_butlastD)
  from assms(2,3) ser bl assms(1) show ?thesis
    by (auto simp add: Read_next_def File_constructor_def Directory_constructor3_def Pending_new_def
        Finished_new_def serial_children_conv Let_def split: list.splits if_splits)
qed

lemma dir_input_serial:
  assumes "serial (DirNode d cs)" "dir_input inp par d cs c = (c', n', s)"
  shows "serial n' \<and> (\<forall>e. s = Some (SigError e) \<longrightarrow> terminal n')"
proof (cases inp)
  case Schedule
  with assms show ?thesis
    by (auto simp add: Directory_setState_def Dir_State_setState_def Making_new_def Let_def
        split: if_splits)
next
  case (CpFileDone x)
  with assms show ?thesis by auto
next
  case (MkdircDone r)
  with assms show ?thesis
    by (auto simp add: mkdirc_done_def Dir_State_setState_def Conflict_new_def Failed_new_def
        Reading_new_def split: dstate.splits sum.splits if_splits)
next
  case (ReaddirDone r)
  show ?thesis
  proof (cases "d_state d = Dir_Reading")
    case False
    with assms ReaddirDone show ?thesis
      by (auto simp add: readdir_done_def split: dstate.splits)
  next
    case True
    with assms(1) have cs: "cs = []" by auto
    show ?thesis
    proof (cases r)
      case (Inl err)
      with assms ReaddirDone True cs show ?thesis
        by (auto simp add: readdir_done_def Dir_State_setState_def Failed_new_def)
    next
      case (Inr xstats)
      with assms(2) ReaddirDone True cs
      have nx: "Read_next (d\<lparr>d_state := Dir_Read,
                d_dstats := filter (\<lambda>x. x_type x = ''directory'') xstats,
                d_fstats := filter (\<lambda>x. x_type x = ''file'') xstats\<rparr>) []
              (indexReadDir (d_id d) (unindexReadingDir (d_id d) c)) = (c', n', s)"
        by (simp add: readdir_done_def Dir_State_setState_def Read_new_def)
      then have "serial n'"
        by (rule Read_next_serial [rotated 2]) simp_all
      with Read_next_signal [OF nx] show ?thesis by simp
    qed
  qed
qed

lemma file_input_terminal:
  "file_input inp par f c = (c', f', Some (SigError e)) \<Longrightarrow> f_live f' = File_Failed"
  by (cases inp)
    (auto simp add: File_setState_def File_State_setState_def cpFile_done_def Working_callback_def
      Let_def split: if_splits fstate.splits option.splits)

lemma deliver_serial:
  "serial n \<Longrightarrow> deliver inp p par n c = (c', n', s) \<Longrightarrow>
     serial n' \<and> (\<forall>e. s = Some (SigError e) \<longrightarrow> terminal n')"
proof (induction inp p par n c arbitrary: c' n' s rule: deliver.induct)
  case (1 inp par f c)
  then show ?case
    by (auto split: prod.splits dest: file_input_terminal)
next
  case (2 inp i p par f c)
  then show ?case by auto
next
  case (3 inp par d cs c)
  from "3.prems"(2) have "dir_input inp par d cs c = (c', n', s)" by simp
  with "3.prems"(1) show ?case by (rule dir_input_serial)
next
  case (4 inp i p par d cs c)
  show ?case
  proof (cases "i < length cs")
    case False
    with "4.prems" show ?thesis by auto
  next
    case True
    then have "cs \<noteq> []" by auto
    then obtain xs x where cs: "cs = xs @ [x]"
      by (cases cs rule: rev_cases) auto
    from "4.prems"(1) cs have rd: "d_state d = Dir_Read" and trm: "list_all terminal xs"
      and ser: "\<forall>n\<in>set xs. serial n" "serial x"
      by (auto simp add: serial_children_conv)
    show ?thesis
    proof (cases "i < length xs")
      case True
      then have "terminal (cs ! i)"
        using trm cs by (simp add: list_all_length nth_append)
      then have "deliver inp p (parent_of d) (cs ! i) c = (c, cs ! i, None)"
        by (rule terminal_ignores_input)
      with "4.prems"(2) \<open>i < length cs\<close> have "n' = DirNode d cs" "s = None"
        by auto
      with "4.prems"(1) show ?thesis
        by simp
    next
      case False
      with \<open>i < length cs\<close> cs have i: "i = length xs" by simp
      then have ci: "cs ! i = x" using cs by simp
      obtain c1 n1 s1 where r: "deliver inp p (parent_of d) x c = (c1, n1, s1)"
        by (cases "deliver inp p (parent_of d) x c") auto
      from "4.IH" [OF \<open>i < length cs\<close>] ci ser(2) r
      have n1: "serial n1" "\<forall>e. s1 = Some (SigError e) \<longrightarrow> terminal n1"
        by auto
      have upd: "cs[i := n1] = xs @ [n1]"
        using cs i by simp
      have det: "detach_at i (cs[i := n1]) = xs"
        using cs i by (simp add: detach_at_def)
      show ?thesis
      proof (cases s1)
        case None
        with "4.prems"(2) \<open>i < length cs\<close> ci r upd
        have "n' = DirNode d (xs @ [n1])" "s = None" by simp_all
        with rd trm ser(1) n1(1) show ?thesis
          by (simp add: serial_children_conv)
      next
        case (Some g)
        show ?thesis
        proof (cases g)
          case (SigError e)
          with n1(2) Some have "terminal n1" by simp
          with trm have all: "list_all terminal (xs @ [n1])" by simp
          from "4.prems"(2) \<open>i < length cs\<close> ci r upd Some SigError
          have nx: "Read_next d (xs @ [n1]) c1 = (c', n', s)" by simp
          from all rd nx have "serial n'" by (rule Read_next_serial)
          with Read_next_signal [OF nx] show ?thesis by simp
        next
          case SigFinish
          from "4.prems"(2) \<open>i < length cs\<close> ci r det Some SigFinish
          have nx: "Read_next d xs (Node_destroy n1 c1) = (c', n', s)" by simp
          from trm rd nx have "serial n'" by (rule Read_next_serial)
          with Read_next_signal [OF nx] show ?thesis by simp
        qed
      qed
    qed
  qed
qed

lemma run_serial: "serial n \<Longrightarrow> run evs par n c = (c', n') \<Longrightarrow> serial n'"
proof (induction evs arbitrary: n c)
  case Nil
  then show ?case by simp
next
  case (Cons ev evs)
  obtain p inp where ev: "ev = (p, inp)" by (cases ev) auto
  obtain c1 n1 s1 where d: "deliver inp p par n c = (c1, n1, s1)"
    by (cases "deliver inp p par n c") auto
  from deliver_serial [OF Cons.prems(1) d] have "serial n1" by simp
  moreover from Cons.prems(2) ev d have "run evs par n1 c1 = (c', n')" by simp
  ultimately show ?case by (rule Cons.IH)
qed

lemma constructor_serial:
  assumes "Directory_constructor c srcUUID dst = (c', n', s)"
  shows "serial n'"
proof (cases "\<exists>dstUUID xstats. dst = Some (dstUUID, xstats) \<and> dstUUID \<noteq> []")
  case False
  with assms show ?thesis
    by (auto simp add: Directory_constructor_def Pending_new_def Let_def split: option.splits if_splits)
next
  case True
  then obtain dstUUID xstats where dst: "dst = Some (dstUUID, xstats)" "dstUUID \<noteq> []"
    by blast
  with assms have "Read_next
       \<lparr>d_id = nextId c, d_srcUUID = srcUUID, d_dstUUID = Some dstUUID,
          d_dstats = filter (\<lambda>x. x_type x = ''directory'') xstats,
          d_fstats = filter (\<lambda>x. x_type x = ''file'') xstats,
          d_policy = (None, None), d_state = Dir_Read\<rparr>
       [] (indexReadDir (nextId c) (c\<lparr>nextId := Suc (nextId c)\<rparr>)) = (c', n', s)"
    by (simp add: Directory_constructor_def Read_new_def Let_def)
  then show ?thesis
    by (rule Read_next_serial [rotated 2]) simp_all
qed

lemma self_in_all_nodes: "n \<in> set (all_nodes n)"
  by (cases n) simp_all

lemma child_in_all_nodes:
  assumes "k \<in> set (children_of n)"
  shows "k \<in> set (all_nodes n)"
proof (cases n)
  case (FileNode f)
  with assms show ?thesis by (simp add: children_of_def)
next
  case (DirNode d cs)
  with assms have "k \<in> set cs" by (simp add: children_of_def)
  moreover have "k \<in> set (all_nodes k)" by (rule self_in_all_nodes)
  ultimately have "\<exists>x\<in>set cs. k \<in> set (all_nodes x)" by blast
  with DirNode show ?thesis by simp
qed

lemma serial_all_nodes: "serial n \<Longrightarrow> m \<in> set (all_nodes n) \<Longrightarrow> serial m"
proof (induction n)
  case (FileNode f)
  then show ?case by simp
next
  case (DirNode d cs)
  from DirNode.prems(2) consider "m = DirNode d cs" | k where "k \<in> set cs" "m \<in> set (all_nodes k)"
    by auto
  then show ?case
  proof cases
    case 1
    with DirNode.prems(1) show ?thesis by simp
  next
    case 2
    from DirNode.prems(1) 2(1) have "serial k"
      by (simp add: serial_children_conv)
    with DirNode.IH 2 show ?thesis by blast
  qed
qed

lemma serial_one_active:
  assumes "serial m"
  shows "length (filter (\<lambda>k. \<not> terminal k) (children_of m)) \<le> 1"
proof -
  from assms have "list_all terminal (butlast (children_of m))"
    by (cases m) (simp_all add: children_of_def)
  then have none: "filter (\<lambda>k. \<not> terminal k) (butlast (children_of m)) = []"
    by (simp add: list_all_iff filter_empty_conv)
  show ?thesis
  proof (cases "children_of m = []")
    case True
    then show ?thesis by simp
  next
    case False
    then have "children_of m = butlast (children_of m) @ [last (children_of m)]"
      by simp
    then have "filter (\<lambda>k. \<not> terminal k) (children_of m)
        = filter (\<lambda>k. \<not> terminal k) (butlast (children_of m))
          @ filter (\<lambda>k. \<not> terminal k) [last (children_of m)]"
      by (metis filter_append)
    with none show ?thesis by simp
  qed
qed

text \<open>
  In a tree grown from a constructed directory by any inputs, every directory has at most
  one child that is not terminal.
\<close>

theorem at_most_one_active_child:
  assumes "Directory_constructor c srcUUID dst = (ca, na, sa)" and "run evs par na ca = (c', n')"
    and "m \<in> set (all_nodes n')"
  shows "length (filter (\<lambda>k. \<not> terminal k) (children_of m)) \<le> 1"
proof -
  from assms(1) have "serial na" by (rule constructor_serial)
  then have "serial n'" using assms(2) by (rule run_serial)
  then have "serial m" using assms(3) by (rule serial_all_nodes)
  then show ?thesis by (rule serial_one_active)
qed

theorem at_most_one_active_child_witness:
  "(case Directory_constructor emptyCtx (SrcUUID ''src-dir'') (Some (''dst-dir'', ex_listing)) of
      (ca, na, sa) \<Rightarrow>
        (case run [([0], Schedule), ([0], CpFileDone (Some ex_eio)), ([1], Schedule)] ex_parent na ca of
           (c', n') \<Rightarrow>
             n' \<in> set (all_nodes n') \<and>
             map node_id (children_of n') = [1, 2] \<and>
             map terminal (children_of n') = [True, False] \<and>
             length (filter (\<lambda>k. \<not> terminal k) (children_of n')) \<le> 1))"
proof -
  let ?X = "Directory_constructor emptyCtx (SrcUUID ''src-dir'') (Some (''dst-dir'', ex_listing))"
  let ?Y = "run [([0], Schedule), ([0], CpFileDone (Some ex_eio)), ([1], Schedule)] ex_parent
              (fst (snd ?X)) (fst ?X)"
  have mem: "snd ?Y \<in> set (all_nodes (snd ?Y))"
    by (rule self_in_all_nodes)
  have one: "length (filter (\<lambda>k. \<not> terminal k) (children_of (snd ?Y))) \<le> 1"
    using at_most_one_active_child [where c = emptyCtx and srcUUID = "SrcUUID ''src-dir''"
        and dst = "Some (''dst-dir'', ex_listing)" and ca = "fst ?X" and na = "fst (snd ?X)"
        and sa = "snd (snd ?X)" and par = ex_parent and c' = "fst ?Y" and n' = "snd ?Y"
        and evs = "[([0], Schedule), ([0], CpFileDone (Some ex_eio)), ([1], Schedule)]"
        and m = "snd ?Y"] mem
    by simp
  have "map node_id (children_of (snd ?Y)) = [1, 2] \<and>
        map terminal (children_of (snd ?Y)) = [True, False]"
    by (simp add: ex_listing_def ex_file_entry_def ex_eio_def ex_parent_def emptyCtx_def node_id_def
        machine_defs file_index_defs dir_index_defs call_def)
  with mem one show ?thesis
    by (simp add: case_prod_unfold)
qed

text \<open>
  In such a tree a directory that has children is in Read: in Pending, Making, Conflict,
  Reading, Failed and Finished the children list is empty.
\<close>

theorem children_only_while_Read:
  assumes "Directory_constructor c srcUUID dst = (ca, na, sa)" and "run evs par na ca = (c', n')"
    and "m \<in> set (all_nodes n')"
  shows "children_of m = [] \<or> state_of m = Some Dir_Read"
proof -
  from assms(1) have "serial na" by (rule constructor_serial)
  then have "serial n'" using assms(2) by (rule run_serial)
  then have "serial m" using assms(3) by (rule serial_all_nodes)
  then show ?thesis
    by (cases m) (auto simp add: children_of_def state_of_def)
qed

theorem children_only_while_Read_witness:
  "(case Directory_constructor emptyCtx (SrcUUID ''src-dir'') (Some (''dst-dir'', [ex_sub_entry])) of
      (ca, na, sa) \<Rightarrow>
        (case run [([0], Schedule), ([0], MkdircDone (Inl ex_eexist))] ex_parent na ca of
           (c', n') \<Rightarrow>
             state_of n' = Some Dir_Read \<and>
             map state_of (children_of n') = [Some (Dir_Conflict ex_eexist (None, None))] \<and>
             map children_of (children_of n') = [[]] \<and>
             set (children_of n') \<subseteq> set (all_nodes n')))"
proof -
  let ?X = "Directory_constructor emptyCtx (SrcUUID ''src-dir'') (Some (''dst-dir'', [ex_sub_entry]))"
  let ?Y = "run [([0], Schedule), ([0], MkdircDone (Inl ex_eexist))] ex_parent (fst (snd ?X)) (fst ?X)"
  have val: "state_of (snd ?Y) = Some Dir_Read \<and>
        map state_of (children_of (snd ?Y)) = [Some (Dir_Conflict ex_eexist (None, None))] \<and>
        (\<exists>k. children_of (snd ?Y) = [k])"
    by (simp add: ex_sub_entry_def ex_eexist_def ex_parent_def emptyCtx_def machine_defs
        dir_index_defs call_def Let_def)
  then obtain k where k: "children_of (snd ?Y) = [k]" by blast
  have sub: "set (children_of (snd ?Y)) \<subseteq> set (all_nodes (snd ?Y))"
    by (auto intro: child_in_all_nodes)
  have "k \<in> set (all_nodes (snd ?Y))"
    using k sub by simp
  from children_only_while_Read [where c = emptyCtx and srcUUID = "SrcUUID ''src-dir''"
        and dst = "Some (''dst-dir'', [ex_sub_entry])" and ca = "fst ?X" and na = "fst (snd ?X)"
        and sa = "snd (snd ?X)" and par = ex_parent and c' = "fst ?Y" and n' = "snd ?Y"
        and evs = "[([0], Schedule), ([0], MkdircDone (Inl ex_eexist))]" and m = k, OF _ _ this]
  have "children_of k = [] \<or> state_of k = Some Dir_Read"
    by simp
  with val k have "children_of k = []"
    by auto
  with val k sub show ?thesis
    by (simp add: case_prod_unfold)
qed

text \<open>
  Claim C3, as amended. For a directory in Conflict (it has no children: children are made
  in Read only), \<open>setPolicy(type, policy)\<close> stores the policy in the slot and \<open>retry()\<close>
  moves the directory to Making, with one call of \<open>mkdirc\<close> under the policy resolved
  after the update, whether the value differs from what the slot held or not.
\<close>

theorem setPolicy_in_Conflict_reenters_Making:
  assumes "d_state d = Dir_Conflict e pol"
  shows "(case Directory_setPolicy fr type p par d [] c of
            (c1, n1) \<Rightarrow>
              policy_of n1 = (if type = ''same'' then (p, snd (d_policy d)) else (fst (d_policy d), p)) \<and>
              state_of n1 =
                Some (Dir_Making (policy_slot (fst (policy_of n1)) (fst (policies_dir c)),
                                  policy_slot (snd (policy_of n1)) (snd (policies_dir c)))) \<and>
              children_of n1 = [] \<and>
              trace c1 = trace c @
                [Mkdirc (d_id d) (d_srcUUID d) (p_dstUUID par)
                   (policy_slot (fst (policy_of n1)) (fst (policies_dir c)),
                    policy_slot (snd (policy_of n1)) (snd (policies_dir c)))] \<and>
              d_id d \<in> makingDir c1 \<and> d_id d \<notin> conflictDir c1)"
  using assms
  by (simp add: Directory_setPolicy_def Dir_State_setState_def Making_new_def Directory_getPolicy_def
      policy_of_def state_of_def children_of_def Let_def dir_index_defs call_def)

theorem setPolicy_in_Conflict_reenters_Making_witness:
  "d_state ex_conflict_dir = Dir_Conflict ex_eexist (Some ''skip'', None) \<and>
   (case Directory_setPolicy no_file_retry ''diff'' (Some ''rename'') ex_parent ex_conflict_dir [] emptyCtx of
      (c1, n1) \<Rightarrow>
        policy_of n1 = (Some ''skip'', Some ''rename'') \<and>
        state_of n1 = Some (Dir_Making (Some ''skip'', Some ''rename'')) \<and>
        trace c1 = [Mkdirc 3 (SrcUUID ''src-sub'') (Some ''dst-dir'') (Some ''skip'', Some ''rename'')])"
  using setPolicy_in_Conflict_reenters_Making [where d = ex_conflict_dir and e = ex_eexist
      and pol = "(Some ''skip'', None)" and fr = no_file_retry and type = "''diff''"
      and p = "Some ''rename''" and par = ex_parent and c = emptyCtx]
  by (simp add: ex_conflict_dir_def ex_parent_def emptyCtx_def policy_slot_def truthy_def
      split: prod.splits)

text \<open>
  Claim C3 as stated fails: the slot \<open>same\<close> of a directory in Conflict holds \<open>skip\<close>, and
  \<open>setPolicy('same', 'skip')\<close> moves the directory to Making.
\<close>

theorem setPolicy_same_value_is_not_a_noop:
  "fst (d_policy ex_conflict_dir) = Some ''skip'' \<and>
   d_state ex_conflict_dir = Dir_Conflict ex_eexist (Some ''skip'', None) \<and>
   Directory_setPolicy no_file_retry ''same'' (Some ''skip'') ex_parent ex_conflict_dir [] emptyCtx
     \<noteq> (emptyCtx, DirNode ex_conflict_dir []) \<and>
   state_of (snd (Directory_setPolicy no_file_retry ''same'' (Some ''skip'') ex_parent
                    ex_conflict_dir [] emptyCtx))
     = Some (Dir_Making (Some ''skip'', None))"
  by (simp add: ex_conflict_dir_def ex_parent_def emptyCtx_def Directory_setPolicy_def
      Dir_State_setState_def Making_new_def Directory_getPolicy_def policy_slot_def truthy_def
      state_of_def Let_def dir_index_defs call_def)


section \<open>Properties of destroy\<close>

lemma without_without: "without (without c r) s = without c (both r s)"
  by (simp add: without_def both_def Diff_eq Int_assoc)

lemma removal_compose:
  assumes "removal g" "removal h"
  shows "removal (\<lambda>c. h (g c))"
proof -
  from assms obtain r s where "\<forall>c. g c = without c r" "\<forall>c. h c = without c s"
    by (auto simp add: removal_def)
  then have "\<forall>c. h (g c) = without c (both r s)"
    by (simp add: without_without)
  then show ?thesis
    unfolding removal_def by blast
qed

lemma removal_idempotent:
  assumes "removal g"
  shows "g (g c) = g c"
proof -
  from assms obtain r where r: "\<forall>c. g c = without c r"
    by (auto simp add: removal_def)
  have "without (without c r) r = without c r"
    by (simp add: without_def)
  with r show ?thesis by simp
qed

lemma removal_id: "removal (\<lambda>c. c)"
  unfolding removal_def
  by (rule exI [where x = emptyCtx]) (simp add: without_def emptyCtx_def)

lemma removal_unindex_file:
  "removal (unindexPendingFile i)" "removal (unindexWorkingFile i)"
  "removal (unindexConflictFile i)" "removal (unindexFinishedFile i)"
  unfolding removal_def
  by (rule exI [where x = "emptyCtx\<lparr>pendingFile := {i}\<rparr>"],
      simp add: without_def emptyCtx_def unindexPendingFile_def,
      rule exI [where x = "emptyCtx\<lparr>workingFile := {i}\<rparr>"],
      simp add: without_def emptyCtx_def unindexWorkingFile_def,
      rule exI [where x = "emptyCtx\<lparr>conflictFile := {i}\<rparr>"],
      simp add: without_def emptyCtx_def unindexConflictFile_def,
      rule exI [where x = "emptyCtx\<lparr>finishedFile := {i}\<rparr>"],
      simp add: without_def emptyCtx_def unindexFinishedFile_def)

lemma removal_unindex_dir:
  "removal (unindexPendingDir i)" "removal (unindexMakingDir i)" "removal (unindexConflictDir i)"
  "removal (unindexReadingDir i)" "removal (unindexReadDir i)" "removal (unindexFailedDir i)"
  "removal (unindexFinishedDir i)"
  unfolding removal_def
  by (rule exI [where x = "emptyCtx\<lparr>pendingDir := {i}\<rparr>"],
      simp add: without_def emptyCtx_def unindexPendingDir_def,
      rule exI [where x = "emptyCtx\<lparr>makingDir := {i}\<rparr>"],
      simp add: without_def emptyCtx_def unindexMakingDir_def,
      rule exI [where x = "emptyCtx\<lparr>conflictDir := {i}\<rparr>"],
      simp add: without_def emptyCtx_def unindexConflictDir_def,
      rule exI [where x = "emptyCtx\<lparr>readingDir := {i}\<rparr>"],
      simp add: without_def emptyCtx_def unindexReadingDir_def,
      rule exI [where x = "emptyCtx\<lparr>readDir := {i}\<rparr>"],
      simp add: without_def emptyCtx_def unindexReadDir_def,
      rule exI [where x = "emptyCtx\<lparr>failedDir := {i}\<rparr>"],
      simp add: without_def emptyCtx_def unindexFailedDir_def,
      rule exI [where x = "emptyCtx\<lparr>finishedDir := {i}\<rparr>"],
      simp add: without_def emptyCtx_def unindexFinishedDir_def)

lemma removal_File_State_exit: "removal (File_State_exit s f)"
  by (cases s) (simp_all add: removal_def removal_unindex_file [unfolded removal_def])

lemma removal_Dir_State_exit: "removal (Dir_State_exit s d)"
  by (cases s) (simp_all add: removal_def removal_unindex_dir [unfolded removal_def])

lemma removal_destroy_children:
  assumes "\<And>n. n \<in> set ns \<Longrightarrow> removal (Node_destroy n)"
  shows "removal (destroy_children ns)"
  using assms
proof (induction ns)
  case Nil
  show ?case
    using removal_id by (simp add: removal_def)
next
  case (Cons n ns)
  have "removal (Node_destroy n)" "removal (destroy_children ns)"
    using Cons by simp_all
  then have "removal (\<lambda>c. destroy_children ns (Node_destroy n c))"
    by (rule removal_compose)
  then show ?case
    by (simp add: removal_def)
qed

lemma removal_Node_destroy: "removal (Node_destroy n)"
proof (induction n)
  case (FileNode f)
  show ?case
    using removal_File_State_exit [of "f_state f" f] by (simp add: removal_def File_destroy_def)
next
  case (DirNode d cs)
  then have kids: "removal (destroy_children cs)"
    by (rule removal_destroy_children)
  have "removal (\<lambda>c. Dir_State_exit (d_state d) d (destroy_children cs c))"
    using kids removal_Dir_State_exit by (rule removal_compose)
  then have "removal (\<lambda>c. destroy_children cs (Dir_State_exit (d_state d) d (destroy_children cs c)))"
    using kids by (rule removal_compose)
  then show ?case
    by (simp add: removal_def)
qed

text \<open>
  \<open>destroy\<close> of a node, with all that is below it, only takes members out of buckets:
  a second \<open>destroy\<close> changes nothing.
\<close>

theorem destroy_is_idempotent:
  "Node_destroy n (Node_destroy n c) = Node_destroy n c"
  using removal_Node_destroy by (rule removal_idempotent)

lemma without_shrinks:
  "pendingDir (without c r) \<subseteq> pendingDir c" "makingDir (without c r) \<subseteq> makingDir c"
  "conflictDir (without c r) \<subseteq> conflictDir c" "readingDir (without c r) \<subseteq> readingDir c"
  "readDir (without c r) \<subseteq> readDir c" "failedDir (without c r) \<subseteq> failedDir c"
  "finishedDir (without c r) \<subseteq> finishedDir c"
  by (auto simp add: without_def)

lemma bucket_of_without: "bucket_of s (without c r) \<subseteq> bucket_of s c"
  by (cases s) (simp_all add: bucket_of_def without_shrinks)

lemma exit_leaves_bucket: "d_id d \<notin> bucket_of s (Dir_State_exit s d c)"
  by (cases s) (simp_all add: bucket_of_def dir_index_defs)

text \<open>
  After \<open>destroy\<close> a directory is not in the bucket of its current state.
\<close>

theorem Directory_destroy_leaves_its_bucket:
  "d_id d \<notin> bucket_of (d_state d) (Node_destroy (DirNode d cs) c)"
proof -
  from removal_destroy_children [of cs] removal_Node_destroy
  obtain r where r: "\<forall>c. destroy_children cs c = without c r"
    by (auto simp add: removal_def)
  let ?c1 = "Dir_State_exit (d_state d) d (destroy_children cs c)"
  have "bucket_of (d_state d) (without ?c1 r) \<subseteq> bucket_of (d_state d) ?c1"
    by (rule bucket_of_without)
  moreover have "d_id d \<notin> bucket_of (d_state d) ?c1"
    by (rule exit_leaves_bucket)
  ultimately show ?thesis
    using r by auto
qed


section \<open>Properties of createRoot\<close>



text \<open>
  When \<open>mkdirp\<close> or \<open>forceXstat\<close> fails, \<open>createRoot\<close> hands the error to the callback and
  leaves the forest as it was; after a failure of \<open>mkdirp\<close>, \<open>forceXstat\<close> is not called.
\<close>

theorem createRoot_fails_with_its_collaborators:
  "createRoot d (Some err) r f = (f, [Mkdirp (path_join (dir f) d)], Inl err)
   \<and> createRoot d None (Inl err) f
       = (f, [Mkdirp (path_join (dir f) d), ForceXstat (path_join (dir f) d) d], Inl err)"
  by (simp add: createRoot_def Let_def)


end
